theory Spec2Isabelle
  imports Main "HOL-Library.AList" "HOL-Library.Multiset" "HOL-Library.Sublist"
begin

section \<open>Python values and exceptions\<close>

text \<open>
  The tools return plain Python dictionaries and lists, and the reasoning engine sends JSON
  objects. One type of dynamic values stands for both. A dictionary is an association list:
  Python dictionaries keep insertion order, and assigning to an existing key keeps its place.
  A float is kept as its printed form: the modelled code never computes with one.
\<close>

datatype pyval =
    PNone
  | PBool bool
  | PInt int
  | PFloat string
  | PStr string
  | PList "pyval list"
  | PDict "(string \<times> pyval) list"

text \<open>\<open>str(n)\<close> for an integer, as the f-strings of the tools use it.\<close>

fun digits :: "nat \<Rightarrow> string" where
  "digits n =
     (if n < 10 then [''0123456789'' ! n]
      else digits (n div 10) @ [''0123456789'' ! (n mod 10)])"

declare digits.simps [simp del]

definition str_int :: "int \<Rightarrow> string" where
  "str_int i = (if i < 0 then ''-'' @ digits (nat (- i)) else digits (nat i))"

text \<open>
  The exceptions that the modelled code raises or lets through, each with the text that
  \<open>str(e)\<close> gives (for \<open>HTTPException\<close>: the status code and the detail).
  \<open>ValueError\<close> includes its subclasses, such as the decoding error of \<open>json.loads\<close>.
  \<open>OtherError\<close> stands for every class that is neither named here nor a subclass of
  \<open>ValueError\<close>, such as the errors of the reasoning engine's client.
\<close>

datatype exn =
    ValueError string
  | TypeError string
  | KeyError string
  | AttributeError string
  | MultipleResultsFound string
  | IntegrityError string
  | DataError string
  | HTTPException int string
  | OtherError string

fun str_exn :: "exn \<Rightarrow> string" where
  "str_exn (ValueError m) = m"
| "str_exn (TypeError m) = m"
| "str_exn (KeyError m) = m"
| "str_exn (AttributeError m) = m"
| "str_exn (MultipleResultsFound m) = m"
| "str_exn (IntegrityError m) = m"
| "str_exn (DataError m) = m"
| "str_exn (HTTPException code detail) = str_int code @ '': '' @ detail"
| "str_exn (OtherError m) = m"

section \<open>models.py: tasks, conversations, messages\<close>

text \<open>
  A UUID is represented by its 128-bit integer value. Parsing a string into a UUID is the
  constructor \<open>UUID(user_id)\<close> of the Python library; it is a parameter \<open>UUID\<close> of
  every tool, with \<open>None\<close> for the \<open>ValueError\<close> the constructor raises on a malformed
  string. Time stamps are integers (microseconds).
\<close>

type_synonym uuid = nat
type_synonym timestamp = int

record task =
  t_id :: int
  t_user_id :: uuid
  t_title :: string
  t_description :: "string option"
  t_completed :: bool
  t_created_at :: timestamp
  t_updated_at :: timestamp

record conversation =
  c_id :: int
  c_user_id :: uuid
  c_created_at :: timestamp
  c_updated_at :: timestamp

record message =
  m_id :: int
  m_conversation_id :: int
  m_user_id :: uuid
  m_role :: string
  m_content :: string
  m_created_at :: timestamp

section \<open>The database session\<close>

text \<open>
  The session is the state of the three tables (rows in insertion order), the three identity
  sequences, and the clock: \<open>clock s k\<close> is what the \<open>k\<close>-th call of
  \<open>datetime.utcnow()\<close> returns and \<open>reads s\<close> counts the calls made so far. Every tool
  flushes right after it changes a row, so a change is visible to the next statement.
  The users table is not modelled: owners are the authenticated users of the calling layer.
  The tasks table accepts every row: the length limits of its columns and the triggers of
  the database are left out, so the \<open>internal_error\<close> handler of a tool is reached only
  through \<open>scalar_one_or_none\<close>. The messages table keeps the limit that \<open>models.py\<close>
  declares for the content of a message, \<open>max_length=5000\<close>: the outcome of a chat turn
  depends on it.
\<close>

record session =
  tasks :: "task list"
  conversations :: "conversation list"
  messages :: "message list"
  task_seq :: int
  conversation_seq :: int
  message_seq :: int
  clock :: "nat \<Rightarrow> timestamp"
  reads :: nat

definition utcnow :: "session \<Rightarrow> timestamp \<times> session" where
  "utcnow s = (clock s (reads s), s\<lparr>reads := Suc (reads s)\<rparr>)"

text \<open>
  \<open>result.scalar_one_or_none()\<close>: no row gives \<open>None\<close>, one row gives the row, several rows
  raise \<open>MultipleResultsFound\<close>.
\<close>

fun scalar_one_or_none :: "'a list \<Rightarrow> exn + 'a option" where
  "scalar_one_or_none [] = Inr None"
| "scalar_one_or_none [x] = Inr (Some x)"
| "scalar_one_or_none (x # y # zs) =
     Inl (MultipleResultsFound ''Multiple rows were found when one or none was required'')"

text \<open>\<open>select(Task).where(Task.id == task_id, Task.user_id == user_uuid)\<close>\<close>

definition select_task :: "session \<Rightarrow> int \<Rightarrow> uuid \<Rightarrow> task list" where
  "select_task s task_id user_uuid =
     filter (\<lambda>t. t_id t = task_id \<and> t_user_id t = user_uuid) (tasks s)"

text \<open>Writing a changed row back (flush of a loaded object): the row keeps its place.\<close>

definition update_row :: "task \<Rightarrow> task list \<Rightarrow> task list" where
  "update_row t' ts = map (\<lambda>t. if t_id t = t_id t' then t' else t) ts"

text \<open>\<open>session.delete(task)\<close> followed by flush.\<close>

definition delete_row :: "task \<Rightarrow> task list \<Rightarrow> task list" where
  "delete_row t' ts = filter (\<lambda>t. t_id t \<noteq> t_id t') ts"

section \<open>mcp/tools.py\<close>

definition error_dict :: "string \<Rightarrow> string \<Rightarrow> pyval" where
  "error_dict kind msg = PDict [(''error'', PStr kind), (''message'', PStr msg)]"

definition result_dict :: "int \<Rightarrow> string \<Rightarrow> string \<Rightarrow> pyval" where
  "result_dict task_id status title =
     PDict [(''task_id'', PInt task_id), (''status'', PStr status), (''title'', PStr title)]"

definition invalid_user_id :: "string \<Rightarrow> pyval" where
  "invalid_user_id user_id =
     error_dict ''validation_error'' (''Invalid user_id format: '' @ user_id)"

definition task_not_found :: "int \<Rightarrow> pyval" where
  "task_not_found task_id =
     error_dict ''not_found'' (''Task '' @ str_int task_id @ '' not found'')"

definition internal_error :: "exn \<Rightarrow> pyval" where
  "internal_error e = error_dict ''internal_error'' (str_exn e)"

text \<open>
  \<open>AddTaskTool.run\<close>. The row gets the next value of the identity sequence at flush; its two
  time stamps are two readings of the clock (the \<open>default_factory\<close> of each field).
\<close>

definition AddTaskTool_run ::
  "(string \<Rightarrow> uuid option) \<Rightarrow> session \<Rightarrow> string \<Rightarrow> string \<Rightarrow> string option
     \<Rightarrow> pyval \<times> session" where
  "AddTaskTool_run UUID s user_id title description =
     (case UUID user_id of
        None \<Rightarrow> (invalid_user_id user_id, s)
      | Some user_uuid \<Rightarrow>
          (let (created, s1) = utcnow s;
               (updated, s2) = utcnow s1;
               task = \<lparr>t_id = task_seq s2, t_user_id = user_uuid, t_title = title,
                       t_description = description, t_completed = False,
                       t_created_at = created, t_updated_at = updated\<rparr>;
               s3 = s2\<lparr>tasks := tasks s2 @ [task], task_seq := task_seq s2 + 1\<rparr>
           in (result_dict (t_id task) ''created'' (t_title task), s3)))"

text \<open>
  \<open>ListTasksTool.run\<close>. The status filter compares with the two literals only; any other
  string selects all rows of the owner. \<open>order_by(Task.created_at.desc())\<close> is a stable sort
  on the negated creation time.
\<close>

definition status_filter :: "string \<Rightarrow> task \<Rightarrow> bool" where
  "status_filter status t =
     (if status = ''pending'' then t_completed t = False
      else if status = ''completed'' then t_completed t = True
      else True)"

definition list_query :: "session \<Rightarrow> uuid \<Rightarrow> string \<Rightarrow> task list" where
  "list_query s user_uuid status =
     sort_key (\<lambda>t. - t_created_at t)
       (filter (\<lambda>t. t_user_id t = user_uuid \<and> status_filter status t) (tasks s))"

definition task_entry :: "task \<Rightarrow> pyval" where
  "task_entry t =
     PDict [(''id'', PInt (t_id t)), (''title'', PStr (t_title t)),
            (''completed'', PBool (t_completed t))]"

definition ListTasksTool_run ::
  "(string \<Rightarrow> uuid option) \<Rightarrow> session \<Rightarrow> string \<Rightarrow> string \<Rightarrow> pyval \<times> session" where
  "ListTasksTool_run UUID s user_id status =
     (case UUID user_id of
        None \<Rightarrow> (PList [invalid_user_id user_id], s)
      | Some user_uuid \<Rightarrow> (PList (map task_entry (list_query s user_uuid status)), s))"

text \<open>\<open>CompleteTaskTool.run\<close>\<close>

definition CompleteTaskTool_run ::
  "(string \<Rightarrow> uuid option) \<Rightarrow> session \<Rightarrow> string \<Rightarrow> int \<Rightarrow> pyval \<times> session" where
  "CompleteTaskTool_run UUID s user_id task_id =
     (case UUID user_id of
        None \<Rightarrow> (invalid_user_id user_id, s)
      | Some user_uuid \<Rightarrow>
          (case scalar_one_or_none (select_task s task_id user_uuid) of
             Inl e \<Rightarrow> (internal_error e, s)
           | Inr None \<Rightarrow> (task_not_found task_id, s)
           | Inr (Some task) \<Rightarrow>
               (let task' = task\<lparr>t_completed := True\<rparr>
                in (result_dict (t_id task') ''completed'' (t_title task'),
                    s\<lparr>tasks := update_row task' (tasks s)\<rparr>))))"

text \<open>\<open>DeleteTaskTool.run\<close>\<close>

definition DeleteTaskTool_run ::
  "(string \<Rightarrow> uuid option) \<Rightarrow> session \<Rightarrow> string \<Rightarrow> int \<Rightarrow> pyval \<times> session" where
  "DeleteTaskTool_run UUID s user_id task_id =
     (case UUID user_id of
        None \<Rightarrow> (invalid_user_id user_id, s)
      | Some user_uuid \<Rightarrow>
          (case scalar_one_or_none (select_task s task_id user_uuid) of
             Inl e \<Rightarrow> (internal_error e, s)
           | Inr None \<Rightarrow> (task_not_found task_id, s)
           | Inr (Some task) \<Rightarrow>
               (let task_title = t_title task
                in (result_dict task_id ''deleted'' task_title,
                    s\<lparr>tasks := delete_row task (tasks s)\<rparr>))))"

text \<open>
  \<open>UpdateTaskTool.run\<close>. The check that a field is supplied comes before the lookup. Only
  \<open>title\<close> and \<open>description\<close> are assigned.
\<close>

definition UpdateTaskTool_run ::
  "(string \<Rightarrow> uuid option) \<Rightarrow> session \<Rightarrow> string \<Rightarrow> int \<Rightarrow> string option \<Rightarrow> string option
     \<Rightarrow> pyval \<times> session" where
  "UpdateTaskTool_run UUID s user_id task_id title description =
     (case UUID user_id of
        None \<Rightarrow> (invalid_user_id user_id, s)
      | Some user_uuid \<Rightarrow>
          if title = None \<and> description = None then
            (error_dict ''validation_error''
               ''At least one of title or description must be provided'', s)
          else
            (case scalar_one_or_none (select_task s task_id user_uuid) of
               Inl e \<Rightarrow> (internal_error e, s)
             | Inr None \<Rightarrow> (task_not_found task_id, s)
             | Inr (Some task) \<Rightarrow>
                 (let task1 = (case title of None \<Rightarrow> task
                               | Some v \<Rightarrow> task\<lparr>t_title := v\<rparr>);
                      task2 = (case description of None \<Rightarrow> task1
                               | Some v \<Rightarrow> task1\<lparr>t_description := Some v\<rparr>)
                  in (result_dict (t_id task2) ''updated'' (t_title task2),
                      s\<lparr>tasks := update_row task2 (tasks s)\<rparr>))))"

text \<open>
  The primary key of the tasks table: identities are unique and below the next value of the
  sequence.
\<close>

definition primary_key :: "session \<Rightarrow> bool" where
  "primary_key s =
     (distinct (map t_id (tasks s)) \<and> (\<forall>t \<in> set (tasks s). t_id t < task_seq s))"

section \<open>The conversation service\<close>

text \<open>
  The service functions take the owner as a UUID and raise \<open>ValueError\<close> for a conversation
  that is missing or held by someone else; a raise is the left summand of the result.
\<close>

definition select_conversation :: "session \<Rightarrow> int \<Rightarrow> uuid \<Rightarrow> conversation list" where
  "select_conversation s conversation_id user_id =
     filter (\<lambda>c. c_id c = conversation_id \<and> c_user_id c = user_id) (conversations s)"

definition conversation_not_found :: "int \<Rightarrow> exn" where
  "conversation_not_found conversation_id =
     ValueError (''Conversation '' @ str_int conversation_id @
                 '' not found or doesn't belong to user'')"


text \<open>
  \<open>get_conversation_messages\<close>: the query orders the messages of the conversation by
  \<open>created_at\<close> descending and keeps the first \<open>limit\<close> rows; the rows are then reversed.
  The descending order is a stable sort on the negated creation time. The limit is a
  natural number: the database refuses a negative one.
\<close>

definition conversation_rows :: "session \<Rightarrow> int \<Rightarrow> message list" where
  "conversation_rows s conversation_id =
     filter (\<lambda>m. m_conversation_id m = conversation_id) (messages s)"

definition recent_rows :: "session \<Rightarrow> int \<Rightarrow> nat \<Rightarrow> message list" where
  "recent_rows s conversation_id limit =
     rev (take limit (sort_key (\<lambda>m. - m_created_at m) (conversation_rows s conversation_id)))"

definition message_entry :: "message \<Rightarrow> pyval" where
  "message_entry m = PDict [(''role'', PStr (m_role m)), (''content'', PStr (m_content m))]"

definition get_conversation_messages ::
  "session \<Rightarrow> int \<Rightarrow> uuid \<Rightarrow> nat \<Rightarrow> exn + pyval list" where
  "get_conversation_messages s conversation_id user_id limit =
     (case scalar_one_or_none (select_conversation s conversation_id user_id) of
        Inl e \<Rightarrow> Inl e
      | Inr None \<Rightarrow> Inl (conversation_not_found conversation_id)
      | Inr (Some conversation) \<Rightarrow>
          Inr (map message_entry (recent_rows s conversation_id limit)))"

text \<open>
  \<open>store_message\<close>: the role check, the ownership check, the new row (its \<open>created_at\<close> is
  one reading of the clock), and the explicit \<open>UPDATE\<close> of the conversation's \<open>updated_at\<close>
  with a second reading. The column \<open>content\<close> is declared with \<open>max_length=5000\<close>: the
  flush of a row with a longer content raises the error of the database.
\<close>

definition content_too_long :: exn where
  "content_too_long = DataError ''value too long for type character varying(5000)''"

definition invalid_role :: "string \<Rightarrow> exn" where
  "invalid_role role =
     ValueError (''Invalid role: '' @ role @ ''. Must be 'user' or 'assistant'' @ [CHR 0x27])"

definition touch_conversation :: "int \<Rightarrow> timestamp \<Rightarrow> conversation list \<Rightarrow> conversation list" where
  "touch_conversation conversation_id now cs =
     map (\<lambda>c. if c_id c = conversation_id then c\<lparr>c_updated_at := now\<rparr> else c) cs"

definition store_message ::
  "session \<Rightarrow> int \<Rightarrow> uuid \<Rightarrow> string \<Rightarrow> string \<Rightarrow> exn + message \<times> session" where
  "store_message s conversation_id user_id role content =
     (if role \<notin> set [''user'', ''assistant''] then Inl (invalid_role role)
      else
        (case scalar_one_or_none (select_conversation s conversation_id user_id) of
           Inl e \<Rightarrow> Inl e
         | Inr None \<Rightarrow> Inl (conversation_not_found conversation_id)
         | Inr (Some conversation) \<Rightarrow>
             if 5000 < length content then Inl content_too_long
             else
               (let (created, s1) = utcnow s;
                    message = \<lparr>m_id = message_seq s1, m_conversation_id = conversation_id,
                               m_user_id = user_id, m_role = role, m_content = content,
                               m_created_at = created\<rparr>;
                    s2 = s1\<lparr>messages := messages s1 @ [message],
                             message_seq := message_seq s1 + 1\<rparr>;
                    (now, s3) = utcnow s2;
                    s4 = s3\<lparr>conversations :=
                               touch_conversation conversation_id now (conversations s3)\<rparr>
                in Inr (message, s4))))"

text \<open>
  A sequence of \<open>store_message\<close> calls on one conversation, each on the session the previous
  one left; it stops at the first call that raises.
\<close>

fun store_messages ::
  "session \<Rightarrow> int \<Rightarrow> uuid \<Rightarrow> (string \<times> string) list \<Rightarrow> exn + session" where
  "store_messages s conversation_id user_id [] = Inr s"
| "store_messages s conversation_id user_id ((role, content) # rest) =
     (case store_message s conversation_id user_id role content of
        Inl e \<Rightarrow> Inl e
      | Inr (message, s') \<Rightarrow> store_messages s' conversation_id user_id rest)"

section \<open>mcp/server.py: dispatch by name\<close>

type_synonym kwargs = "(string \<times> pyval) list"

text \<open>
  A tool call either returns a value or raises, and leaves a session. \<open>run_tool name s kw\<close>
  stands for the dynamic call \<open>_tools[name].run(s, **kw)\<close>.
\<close>

type_synonym 's tool_run = "string \<Rightarrow> 's \<Rightarrow> kwargs \<Rightarrow> (exn + pyval) \<times> 's"

definition tool_names :: "string list" where
  "tool_names = [''add_task'', ''list_tasks'', ''complete_task'', ''delete_task'', ''update_task'']"

definition execute_mcp_tool :: "'s tool_run \<Rightarrow> string \<Rightarrow> 's \<Rightarrow> kwargs \<Rightarrow> (exn + pyval) \<times> 's" where
  "execute_mcp_tool run_tool tool_name session kwargs =
     (if tool_name \<notin> set tool_names
      then (Inl (ValueError (''Unknown tool: '' @ tool_name)), session)
      else run_tool tool_name session kwargs)"

text \<open>
  The registry \<open>_tools\<close> under a call with keyword arguments. Python binds the keywords to
  the parameters of \<open>run\<close>: a keyword that is no parameter, or a required parameter without
  a keyword, raises \<open>TypeError\<close>. It does not check the annotated types; what becomes of a
  call whose values have other types than the annotated ones is outside this model and is
  the parameter \<open>untyped\<close>. A JSON \<open>null\<close> for an optional parameter is \<open>None\<close>.
\<close>

definition quoted :: "string \<Rightarrow> string" where
  "quoted k = [CHR 0x27] @ k @ [CHR 0x27]"

definition check_signature :: "string \<Rightarrow> string list \<Rightarrow> string list \<Rightarrow> kwargs \<Rightarrow> exn option" where
  "check_signature cls params required kw =
     (case filter (\<lambda>k. k \<notin> set params) (map fst kw) of
        k # _ \<Rightarrow> Some (TypeError (cls @ ''.run() got an unexpected keyword argument '' @ quoted k))
      | [] \<Rightarrow>
          (case filter (\<lambda>k. map_of kw k = None) required of
             [] \<Rightarrow> None
           | [k] \<Rightarrow> Some (TypeError (cls @ ''.run() missing 1 required positional argument: ''
                                    @ quoted k))
           | k # k' # _ \<Rightarrow>
               Some (TypeError (cls @ ''.run() missing 2 required positional arguments: ''
                                @ quoted k @ '' and '' @ quoted k'))))"

fun returned :: "pyval \<times> session \<Rightarrow> (exn + pyval) \<times> session" where
  "returned (r, s) = (Inr r, s)"

fun optional_str :: "pyval option \<Rightarrow> string option option" where
  "optional_str None = Some None"
| "optional_str (Some PNone) = Some None"
| "optional_str (Some (PStr x)) = Some (Some x)"
| "optional_str (Some _) = None"

definition registered_tools ::
  "(string \<Rightarrow> uuid option) \<Rightarrow> session tool_run \<Rightarrow> session tool_run" where
  "registered_tools UUID untyped name s kw =
     (if name = ''add_task'' then
        (case check_signature ''AddTaskTool'' [''user_id'', ''title'', ''description'']
                [''user_id'', ''title''] kw of
           Some e \<Rightarrow> (Inl e, s)
         | None \<Rightarrow>
             (case (map_of kw ''user_id'', map_of kw ''title'',
                    optional_str (map_of kw ''description'')) of
                (Some (PStr u), Some (PStr t), Some d) \<Rightarrow> returned (AddTaskTool_run UUID s u t d)
              | _ \<Rightarrow> untyped name s kw))
      else if name = ''list_tasks'' then
        (case check_signature ''ListTasksTool'' [''user_id'', ''status''] [''user_id''] kw of
           Some e \<Rightarrow> (Inl e, s)
         | None \<Rightarrow>
             (case (map_of kw ''user_id'', map_of kw ''status'') of
                (Some (PStr u), None) \<Rightarrow> returned (ListTasksTool_run UUID s u ''all'')
              | (Some (PStr u), Some (PStr st)) \<Rightarrow> returned (ListTasksTool_run UUID s u st)
              | _ \<Rightarrow> untyped name s kw))
      else if name = ''complete_task'' then
        (case check_signature ''CompleteTaskTool'' [''user_id'', ''task_id'']
                [''user_id'', ''task_id''] kw of
           Some e \<Rightarrow> (Inl e, s)
         | None \<Rightarrow>
             (case (map_of kw ''user_id'', map_of kw ''task_id'') of
                (Some (PStr u), Some (PInt i)) \<Rightarrow> returned (CompleteTaskTool_run UUID s u i)
              | _ \<Rightarrow> untyped name s kw))
      else if name = ''delete_task'' then
        (case check_signature ''DeleteTaskTool'' [''user_id'', ''task_id'']
                [''user_id'', ''task_id''] kw of
           Some e \<Rightarrow> (Inl e, s)
         | None \<Rightarrow>
             (case (map_of kw ''user_id'', map_of kw ''task_id'') of
                (Some (PStr u), Some (PInt i)) \<Rightarrow> returned (DeleteTaskTool_run UUID s u i)
              | _ \<Rightarrow> untyped name s kw))
      else if name = ''update_task'' then
        (case check_signature ''UpdateTaskTool''
                [''user_id'', ''task_id'', ''title'', ''description'']
                [''user_id'', ''task_id''] kw of
           Some e \<Rightarrow> (Inl e, s)
         | None \<Rightarrow>
             (case (map_of kw ''user_id'', map_of kw ''task_id'',
                    optional_str (map_of kw ''title''),
                    optional_str (map_of kw ''description'')) of
                (Some (PStr u), Some (PInt i), Some t, Some d) \<Rightarrow>
                  returned (UpdateTaskTool_run UUID s u i t d)
              | _ \<Rightarrow> untyped name s kw))
      else (Inl (KeyError (quoted name)), s))"

section \<open>ai/runner.py: the orchestration loop\<close>

text \<open>
  What the reasoning engine sends back: \<open>response.choices[0].message\<close> with its optional text
  and its optional list of tool calls; each tool call carries its arguments as JSON text.
\<close>

record tool_call =
  tc_id :: string
  tc_type :: string
  tc_name :: string
  tc_arguments :: string

record completion_message =
  am_content :: "string option"
  am_tool_calls :: "tool_call list option"

text \<open>
  The engine is outside the program: a call takes the engine's state and the message array
  (the model name and the tool catalogue are constants) and gives the message or the
  exception, and the next state. \<open>json.loads\<close> and \<open>str\<close> are parameters as well.
\<close>

type_synonym 'e engine = "'e \<Rightarrow> pyval list \<Rightarrow> (exn + completion_message) \<times> 'e"

text \<open>
  \<open>obj[key] = value\<close> with a string key; the result is the content of the dictionary after
  the assignment.
\<close>

fun set_item :: "pyval \<Rightarrow> string \<Rightarrow> pyval \<Rightarrow> exn + kwargs" where
  "set_item (PDict d) k v = Inr (AList.update k v d)"
| "set_item (PList xs) k v =
     Inl (TypeError ''list indices must be integers or slices, not str'')"
| "set_item PNone k v = Inl (TypeError (quoted ''NoneType'' @ '' object does not support item assignment''))"
| "set_item (PBool b) k v = Inl (TypeError (quoted ''bool'' @ '' object does not support item assignment''))"
| "set_item (PInt i) k v = Inl (TypeError (quoted ''int'' @ '' object does not support item assignment''))"
| "set_item (PFloat x) k v = Inl (TypeError (quoted ''float'' @ '' object does not support item assignment''))"
| "set_item (PStr x) k v = Inl (TypeError (quoted ''str'' @ '' object does not support item assignment''))"

text \<open>
  The call \<open>execute_mcp_tool(tool_name=tool_name, session=session, **tool_args)\<close>: a key of
  \<open>tool_args\<close> that repeats one of the two explicit keywords raises \<open>TypeError\<close> before the
  function is entered.
\<close>

definition call_execute_mcp_tool ::
  "'s tool_run \<Rightarrow> string \<Rightarrow> 's \<Rightarrow> kwargs \<Rightarrow> (exn + pyval) \<times> 's" where
  "call_execute_mcp_tool run_tool tool_name session tool_args =
     (case filter (\<lambda>k. k \<in> set [''tool_name'', ''session'']) (map fst tool_args) of
        k # _ \<Rightarrow>
          (Inl (TypeError (''execute_mcp_tool() got multiple values for keyword argument ''
                           @ quoted k)), session)
      | [] \<Rightarrow> execute_mcp_tool run_tool tool_name session tool_args)"

definition assistant_entry :: "completion_message \<Rightarrow> tool_call list \<Rightarrow> pyval" where
  "assistant_entry assistant_message tcs =
     PDict [(''role'', PStr ''assistant''),
            (''content'', PStr (case am_content assistant_message of None \<Rightarrow> '''' | Some c \<Rightarrow> c)),
            (''tool_calls'',
             PList (map (\<lambda>tc. PDict [(''id'', PStr (tc_id tc)), (''type'', PStr (tc_type tc)),
                                      (''function'',
                                       PDict [(''name'', PStr (tc_name tc)),
                                              (''arguments'', PStr (tc_arguments tc))])])
                        tcs))]"

definition audit_entry :: "string \<Rightarrow> kwargs \<Rightarrow> pyval \<Rightarrow> pyval" where
  "audit_entry tool_name tool_args tool_result =
     PDict [(''tool'', PStr tool_name), (''arguments'', PDict tool_args),
            (''result'', tool_result)]"

definition tool_entry :: "(pyval \<Rightarrow> string) \<Rightarrow> tool_call \<Rightarrow> pyval \<Rightarrow> pyval" where
  "tool_entry str_of tc tool_result =
     PDict [(''role'', PStr ''tool''), (''tool_call_id'', PStr (tc_id tc)),
            (''name'', PStr (tc_name tc)), (''content'', PStr (str_of tool_result))]"

text \<open>
  The body of the inner \<open>for\<close> loop, for one tool call: parse the arguments, overwrite
  \<open>user_id\<close>, dispatch, record. The state is the session, the message array and the audit
  trail; an exception leaves the loop with the session as it then is.
\<close>

definition execute_call ::
  "(string \<Rightarrow> exn + pyval) \<Rightarrow> (pyval \<Rightarrow> string) \<Rightarrow> 's tool_run \<Rightarrow> string \<Rightarrow> tool_call
     \<Rightarrow> 's \<Rightarrow> pyval list \<Rightarrow> pyval list \<Rightarrow> (exn + pyval list \<times> pyval list) \<times> 's" where
  "execute_call loads str_of run_tool user_id tc session full_messages tool_calls_made =
     (case loads (tc_arguments tc) of
        Inl e \<Rightarrow> (Inl e, session)
      | Inr parsed \<Rightarrow>
          (case set_item parsed ''user_id'' (PStr user_id) of
             Inl e \<Rightarrow> (Inl e, session)
           | Inr tool_args \<Rightarrow>
               (case call_execute_mcp_tool run_tool (tc_name tc) session tool_args of
                  (Inl e, session') \<Rightarrow> (Inl e, session')
                | (Inr tool_result, session') \<Rightarrow>
                    (Inr (full_messages @ [tool_entry str_of tc tool_result],
                          tool_calls_made @ [audit_entry (tc_name tc) tool_args tool_result]),
                     session'))))"

fun execute_calls ::
  "(string \<Rightarrow> exn + pyval) \<Rightarrow> (pyval \<Rightarrow> string) \<Rightarrow> 's tool_run \<Rightarrow> string \<Rightarrow> tool_call list
     \<Rightarrow> 's \<Rightarrow> pyval list \<Rightarrow> pyval list \<Rightarrow> (exn + pyval list \<times> pyval list) \<times> 's" where
  "execute_calls loads str_of run_tool user_id [] session full_messages tool_calls_made =
     (Inr (full_messages, tool_calls_made), session)"
| "execute_calls loads str_of run_tool user_id (tc # tcs) session full_messages tool_calls_made =
     (case execute_call loads str_of run_tool user_id tc session full_messages tool_calls_made of
        (Inl e, session') \<Rightarrow> (Inl e, session')
      | (Inr (full_messages', tool_calls_made'), session') \<Rightarrow>
          execute_calls loads str_of run_tool user_id tcs session' full_messages'
            tool_calls_made')"

definition apology :: string where
  "apology = ''I apologize, but I'm having trouble completing that request. '' @
             ''Could you try rephrasing?''"

definition final_result :: "string option \<Rightarrow> pyval list \<Rightarrow> int \<Rightarrow> pyval" where
  "final_result content tool_calls_made iterations =
     PDict [(''assistant_message'', (case content of None \<Rightarrow> PNone | Some c \<Rightarrow> PStr c)),
            (''tool_calls'', PList tool_calls_made),
            (''iterations'', PInt iterations)]"

definition budget_result :: "pyval list \<Rightarrow> int \<Rightarrow> pyval" where
  "budget_result tool_calls_made iterations =
     PDict [(''assistant_message'', PStr apology),
            (''tool_calls'', PList tool_calls_made),
            (''iterations'', PInt iterations),
            (''error'', PStr ''max_iterations_reached'')]"

text \<open>
  The \<open>while\<close> loop of \<open>AgentRunner.run\<close>. The counter is incremented before the engine is
  called. A message with a non-empty list of tool calls goes through the inner loop and back
  to the test; any other message ends the run with the final result. An exception of the
  engine, of the parsing or of the dispatch leaves the run.
\<close>

function run_loop ::
  "(string \<Rightarrow> exn + pyval) \<Rightarrow> (pyval \<Rightarrow> string) \<Rightarrow> 'e engine \<Rightarrow> 's tool_run \<Rightarrow> string \<Rightarrow> int
     \<Rightarrow> 'e \<Rightarrow> 's \<Rightarrow> pyval list \<Rightarrow> pyval list \<Rightarrow> int \<Rightarrow> (exn + pyval) \<times> 'e \<times> 's" where
  "run_loop loads str_of create run_tool user_id max_iterations
       e session full_messages tool_calls_made iterations =
     (if iterations < max_iterations then
        (case create e full_messages of
           (Inl err, e') \<Rightarrow> (Inl err, e', session)
         | (Inr assistant_message, e') \<Rightarrow>
             (case am_tool_calls assistant_message of
                Some (tc # tcs) \<Rightarrow>
                  (case execute_calls loads str_of run_tool user_id (tc # tcs) session
                          (full_messages @ [assistant_entry assistant_message (tc # tcs)])
                          tool_calls_made of
                     (Inl err, session') \<Rightarrow> (Inl err, e', session')
                   | (Inr (full_messages', tool_calls_made'), session') \<Rightarrow>
                       run_loop loads str_of create run_tool user_id max_iterations
                         e' session' full_messages' tool_calls_made' (iterations + 1))
              | _ \<Rightarrow>
                  (Inr (final_result (am_content assistant_message) tool_calls_made
                          (iterations + 1)), e', session)))
      else (Inr (budget_result tool_calls_made iterations), e, session))"
  by pat_completeness auto
termination
  by (relation "measure (\<lambda>(loads, str_of, create, run_tool, user_id, max_iterations,
                           e, session, full_messages, tool_calls_made, iterations).
                           nat (max_iterations - iterations))") auto

declare run_loop.simps [simp del]

definition AgentRunner_run ::
  "(string \<Rightarrow> exn + pyval) \<Rightarrow> (pyval \<Rightarrow> string) \<Rightarrow> 'e engine \<Rightarrow> 's tool_run \<Rightarrow> string
     \<Rightarrow> 'e \<Rightarrow> 's \<Rightarrow> string \<Rightarrow> pyval list \<Rightarrow> int \<Rightarrow> (exn + pyval) \<times> 'e \<times> 's" where
  "AgentRunner_run loads str_of create run_tool system_prompt e session user_id msgs
       max_iterations =
     run_loop loads str_of create run_tool user_id max_iterations e session
       ([PDict [(''role'', PStr ''system''), (''content'', PStr system_prompt)]] @ msgs)
       [] 0"

text \<open>
  Counting the reasoning calls: the engine wrapped so that its state also carries the number
  of calls made to it.
\<close>

definition counting :: "'e engine \<Rightarrow> (nat \<times> 'e) engine" where
  "counting create = (\<lambda>(n, e) full_messages.
     (case create e full_messages of (r, e') \<Rightarrow> (r, (Suc n, e'))))"

text \<open>
  A dispatcher that refuses every call whose \<open>user_id\<close> argument is not the given owner:
  it agrees with \<open>run_tool\<close> exactly on the calls made for that owner.
\<close>

definition for_owner :: "string \<Rightarrow> 's tool_run \<Rightarrow> 's tool_run" where
  "for_owner user_id run_tool = (\<lambda>name session kw.
     if map_of kw ''user_id'' = Some (PStr user_id) then run_tool name session kw
     else (Inl (TypeError ''call for another owner''), session))"

text \<open>
  Reading the audit trail: the \<open>user_id\<close> recorded in the arguments of an entry, and the
  trail of a result.
\<close>

definition entry_user_id :: "pyval \<Rightarrow> pyval option" where
  "entry_user_id entry =
     (case entry of
        PDict d \<Rightarrow> (case map_of d ''arguments'' of
                      Some (PDict tool_args) \<Rightarrow> map_of tool_args ''user_id''
                    | _ \<Rightarrow> None)
      | _ \<Rightarrow> None)"

definition trail_of :: "pyval \<Rightarrow> pyval list" where
  "trail_of result =
     (case result of
        PDict d \<Rightarrow> (case map_of d ''tool_calls'' of Some (PList trail) \<Rightarrow> trail | _ \<Rightarrow> [])
      | _ \<Rightarrow> [])"

text \<open>
  A requested tool call dispatches: its arguments parse to a JSON object and, with the
  owner written into them, the call returns a value from every session.
\<close>

definition dispatches ::
  "(string \<Rightarrow> exn + pyval) \<Rightarrow> 's tool_run \<Rightarrow> string \<Rightarrow> tool_call \<Rightarrow> bool" where
  "dispatches loads run_tool user_id tc =
     (\<exists>d. loads (tc_arguments tc) = Inr (PDict d) \<and>
          (\<forall>session. \<exists>r session'.
             call_execute_mcp_tool run_tool (tc_name tc) session
               (AList.update ''user_id'' (PStr user_id) d) = (Inr r, session')))"

text \<open>
  An engine that asks for at least one tool call at every step, each of which dispatches.
\<close>

definition always_requests ::
  "(string \<Rightarrow> exn + pyval) \<Rightarrow> 's tool_run \<Rightarrow> string \<Rightarrow> 'e engine \<Rightarrow> bool" where
  "always_requests loads run_tool user_id create =
     (\<forall>e full_messages. \<exists>m e' tc tcs.
        create e full_messages = (Inr m, e') \<and> am_tool_calls m = Some (tc # tcs) \<and>
        (\<forall>c \<in> set (tc # tcs). dispatches loads run_tool user_id c))"

text \<open>
  The state of the \<open>while\<close> loop, namely the engine, the session, the message array, the
  audit trail and the counter, after \<open>k\<close> further passes each of which went through its
  tool calls and back to the test; \<open>None\<close> if the run ends within these passes.
\<close>

fun loop_state_after ::
  "(string \<Rightarrow> exn + pyval) \<Rightarrow> (pyval \<Rightarrow> string) \<Rightarrow> 'e engine \<Rightarrow> 's tool_run \<Rightarrow> string \<Rightarrow> int
     \<Rightarrow> nat \<Rightarrow> 'e \<times> 's \<times> pyval list \<times> pyval list \<times> int
     \<Rightarrow> ('e \<times> 's \<times> pyval list \<times> pyval list \<times> int) option" where
  "loop_state_after loads str_of create run_tool user_id max_iterations 0 st = Some st"
| "loop_state_after loads str_of create run_tool user_id max_iterations (Suc k)
       (e, session, full_messages, tool_calls_made, iterations) =
     (if iterations < max_iterations then
        (case create e full_messages of
           (Inl err, e') \<Rightarrow> None
         | (Inr assistant_message, e') \<Rightarrow>
             (case am_tool_calls assistant_message of
                Some (tc # tcs) \<Rightarrow>
                  (case execute_calls loads str_of run_tool user_id (tc # tcs) session
                          (full_messages @ [assistant_entry assistant_message (tc # tcs)])
                          tool_calls_made of
                     (Inl err, session') \<Rightarrow> None
                   | (Inr (full_messages', tool_calls_made'), session') \<Rightarrow>
                       loop_state_after loads str_of create run_tool user_id max_iterations k
                         (e', session', full_messages', tool_calls_made', iterations + 1))
              | _ \<Rightarrow> None))
      else None)"

section \<open>The fallback responder\<close>










text \<open>
  The library functions that the responder calls are parameters, collected in a record:
  \<open>str.lower\<close>, \<open>str.strip\<close>, \<open>str\<close>, \<open>int\<close> on a string (it may raise \<open>ValueError\<close>),
  \<open>re.search\<close> (from the pattern, the flag \<open>re.IGNORECASE\<close> and the subject to the first
  group of the leftmost match, if there is a match), and \<open>re.sub\<close> (pattern, replacement,
  subject). The counter \<open>conversation_count\<close> of the runner is written and never read; it
  has no place here. A character outside ASCII is kept as the bytes of its UTF-8 encoding.
\<close>

record pylib =
  py_lower :: "string \<Rightarrow> string"
  py_strip :: "string \<Rightarrow> string"
  py_str :: "pyval \<Rightarrow> string"
  py_int :: "string \<Rightarrow> exn + int"
  re_search :: "string \<Rightarrow> bool \<Rightarrow> string \<Rightarrow> string option"
  re_sub :: "string \<Rightarrow> string \<Rightarrow> string \<Rightarrow> string"








definition task_number_pattern :: string where
  "task_number_pattern = ''(?:task'' @ [CHR 0x5C] @ ''s+)?('' @ [CHR 0x5C] @ ''d+)''"








subsection \<open>Adding a task\<close>






subsection \<open>Listing the tasks\<close>






subsection \<open>Completing, deleting and updating a task\<close>









subsection \<open>Help, the default answer, and the choice of the handler\<close>





section \<open>routes/chat.py: the chat turn\<close>













section \<open>Sample data\<close>

text \<open>
  Two owners, and a session holding three tasks and one conversation. Every string other
  than the two owner identifiers is malformed for \<open>sample_UUID\<close>. The concrete instances
  below are evaluated on this data.
\<close>

definition alice :: string where
  "alice = ''00000000-0000-0000-0000-00000000000a''"

definition bob :: string where
  "bob = ''00000000-0000-0000-0000-00000000000b''"

definition sample_UUID :: "string \<Rightarrow> uuid option" where
  "sample_UUID = [alice \<mapsto> 10, bob \<mapsto> 11]"

definition sample_session :: session where
  "sample_session =
     \<lparr>tasks = [\<lparr>t_id = 1, t_user_id = 10, t_title = ''Buy milk'',
                 t_description = Some ''Old description'', t_completed = False,
                 t_created_at = 100, t_updated_at = 100\<rparr>,
               \<lparr>t_id = 2, t_user_id = 11, t_title = ''Call dentist'',
                 t_description = None, t_completed = True,
                 t_created_at = 200, t_updated_at = 250\<rparr>,
               \<lparr>t_id = 3, t_user_id = 10, t_title = ''Pay rent'',
                 t_description = None, t_completed = True,
                 t_created_at = 300, t_updated_at = 350\<rparr>],
      conversations = [\<lparr>c_id = 1, c_user_id = 10, c_created_at = 400, c_updated_at = 400\<rparr>],
      messages = [],
      task_seq = 4, conversation_seq = 2, message_seq = 1,
      clock = (\<lambda>k. 500 + int k), reads = 0\<rparr>"

text \<open>
  The same session with a conversation of bob that holds one message, and a clock that gives
  the reading 500 to every call: the calls of \<open>datetime.utcnow()\<close> fall within one tick.
\<close>

definition frozen_clock_session :: session where
  "frozen_clock_session =
     sample_session
       \<lparr>conversations := conversations sample_session @
          [\<lparr>c_id = 2, c_user_id = 11, c_created_at = 450, c_updated_at = 450\<rparr>],
        messages := [\<lparr>m_id = 1, m_conversation_id = 2, m_user_id = 11, m_role = ''user'',
                      m_content = ''Hello'', m_created_at = 450\<rparr>],
        conversation_seq := 3, message_seq := 2,
        clock := (\<lambda>k. 500)\<rparr>"

lemmas sample_defs = alice_def bob_def sample_UUID_def sample_session_def

text \<open>
  For the orchestration loop: a decoder that knows two argument texts, a rendering of
  results, three tool calls, and four engines. The first tool call asks \<open>add_task\<close> with
  bob's identifier among its arguments; the second names a tool that is not registered; the
  arguments of the third are no JSON text.
\<close>

definition sample_loads :: "string \<Rightarrow> exn + pyval" where
  "sample_loads text =
     (if text = ''{title: Buy bread, user_id: bob}''
      then Inr (PDict [(''title'', PStr ''Buy bread''), (''user_id'', PStr bob)])
      else if text = ''{}'' then Inr (PDict [])
      else Inl (ValueError ''Expecting value: line 1 column 1 (char 0)''))"

definition sample_str :: "pyval \<Rightarrow> string" where
  "sample_str v = (case v of PStr x \<Rightarrow> x | PDict d \<Rightarrow> ''{...}'' | _ \<Rightarrow> ''...'')"

definition sample_untyped :: "session tool_run" where
  "sample_untyped = (\<lambda>name s kw. (Inr (error_dict ''internal_error'' ''datatype mismatch''), s))"

definition add_for_bob :: tool_call where
  "add_for_bob = \<lparr>tc_id = ''call_1'', tc_type = ''function'', tc_name = ''add_task'',
                   tc_arguments = ''{title: Buy bread, user_id: bob}''\<rparr>"

definition unknown_call :: tool_call where
  "unknown_call = \<lparr>tc_id = ''call_2'', tc_type = ''function'', tc_name = ''no_such_tool'',
                    tc_arguments = ''{}''\<rparr>"

definition malformed_call :: tool_call where
  "malformed_call = \<lparr>tc_id = ''call_3'', tc_type = ''function'', tc_name = ''add_task'',
                      tc_arguments = ''{title: ''\<rparr>"

text \<open>An engine that asks for \<open>add_task\<close> at every step.\<close>

definition insistent_engine :: "unit engine" where
  "insistent_engine = (\<lambda>e full_messages.
     (Inr \<lparr>am_content = None, am_tool_calls = Some [add_for_bob]\<rparr>, e))"

text \<open>An engine that asks for the unregistered tool at every step.\<close>

definition unknown_tool_engine :: "unit engine" where
  "unknown_tool_engine = (\<lambda>e full_messages.
     (Inr \<lparr>am_content = None, am_tool_calls = Some [unknown_call]\<rparr>, e))"

text \<open>
  An engine that asks for \<open>add_task\<close> once and from then on for a call whose arguments
  are cut off.
\<close>

definition late_failure_engine :: "nat engine" where
  "late_failure_engine = (\<lambda>n full_messages.
     (Inr \<lparr>am_content = None,
           am_tool_calls = Some [if n = 0 then add_for_bob else malformed_call]\<rparr>, Suc n))"

text \<open>An engine that asks for \<open>add_task\<close> once and then answers in text.\<close>

definition scripted_engine :: "nat engine" where
  "scripted_engine = (\<lambda>n full_messages.
     (Inr (if n = 0 then \<lparr>am_content = None, am_tool_calls = Some [add_for_bob]\<rparr>
           else \<lparr>am_content = Some ''Got it!'', am_tool_calls = None\<rparr>), Suc n))"

lemmas sample_loop_defs = sample_loads_def sample_str_def sample_untyped_def add_for_bob_def
  unknown_call_def malformed_call_def insistent_engine_def unknown_tool_engine_def
  late_failure_engine_def scripted_engine_def

text \<open>
  For the chat turn: a library (lowercase on the letters A to Z, blanks stripped, decimal
  numbers of at most 4300 digits read, a regular-expression engine that knows the texts
  used below and finds no match in any other), the printed form of the two owners, and
  failing runs of the reasoning engine: one for each marker and one without a marker.
\<close>

definition sample_lower :: "string \<Rightarrow> string" where
  "sample_lower = map (\<lambda>c. case map_of (zip ''ABCDEFGHIJKLMNOPQRSTUVWXYZ''
                                              ''abcdefghijklmnopqrstuvwxyz'') c of
                              Some l \<Rightarrow> l | None \<Rightarrow> c)"

definition sample_strip :: "string \<Rightarrow> string" where
  "sample_strip text =
     rev (dropWhile (\<lambda>c. c = CHR '' '') (rev (dropWhile (\<lambda>c. c = CHR '' '') text)))"

definition sample_int :: "string \<Rightarrow> exn + int" where
  "sample_int text =
     (if text \<noteq> [] \<and> length text \<le> 4300 \<and> list_all (\<lambda>c. c \<in> set ''0123456789'') text
      then Inr (foldl (\<lambda>n c. 10 * n + int (length (takeWhile (\<lambda>d. d \<noteq> c) ''0123456789'')))
                  0 text)
      else Inl (ValueError ''invalid literal for int() or too many digits''))"

definition sample_re_search :: "string \<Rightarrow> bool \<Rightarrow> string \<Rightarrow> string option" where
  "sample_re_search pattern ignorecase text =
     (if pattern = task_number_pattern \<and> text = ''delete task 3'' then Some ''3''
      else None)"

definition sample_lib :: pylib where
  "sample_lib = \<lparr>py_lower = sample_lower, py_strip = sample_strip, py_str = sample_str,
                  py_int = sample_int, re_search = sample_re_search,
                  re_sub = (\<lambda>pattern replacement text. text)\<rparr>"

definition sample_str_uuid :: "uuid \<Rightarrow> string" where
  "sample_str_uuid u = (if u = 10 then alice else bob)"

definition failure :: "string \<Rightarrow> session \<Rightarrow> string \<Rightarrow> pyval list \<Rightarrow> (exn + pyval) \<times> session" where
  "failure text = (\<lambda>s user_id msgs. (Inl (OtherError text), s))"

definition quota_text :: string where
  "quota_text = ''You exceeded your current quota, please check your plan''"

definition rate_text :: string where
  "rate_text = ''Rate limit reached for requests''"

definition code_text :: string where
  "code_text = ''Error code: 429''"

definition connection_text :: string where
  "connection_text = ''Connection error.''"






lemmas sample_chat_defs = sample_lower_def sample_strip_def sample_int_def
  sample_re_search_def sample_lib_def sample_str_uuid_def failure_def
  quota_text_def rate_text_def code_text_def connection_text_def

section \<open>Lookups under the primary key\<close>

lemma filter_unique_key:
  "distinct (map f xs) \<Longrightarrow> x \<in> set xs \<Longrightarrow>
     filter (\<lambda>y. f y = f x \<and> P y) xs = (if P x then [x] else [])"
proof (induction xs)
  case Nil
  then show ?case by simp
next
  case (Cons a xs)
  show ?case
  proof (cases "a = x")
    case True
    with Cons.prems have "f x \<notin> f ` set xs" by simp
    then have "\<And>y. y \<in> set xs \<Longrightarrow> f y \<noteq> f x" by (metis imageI)
    then have "filter (\<lambda>y. f y = f x \<and> P y) xs = []"
      by (simp add: filter_empty_conv)
    with True show ?thesis by simp
  next
    case False
    with Cons.prems have xin: "x \<in> set xs" and "f a \<noteq> f x" by auto
    with Cons show ?thesis by simp
  qed
qed




text \<open>Every tool keeps the primary key of the tasks table.\<close>

lemma update_row_ids:
  "t_id t' = k \<Longrightarrow> map t_id (update_row t' ts) = map t_id ts"
  by (induction ts) (auto simp: update_row_def)

lemma update_row_keeps_key:
  assumes "primary_key s" and "t \<in> set (tasks s)" and "t_id t' = t_id t"
  shows "primary_key (s\<lparr>tasks := update_row t' (tasks s)\<rparr>)"
proof -
  have ids: "map t_id (update_row t' (tasks s)) = map t_id (tasks s)"
    by (rule update_row_ids) simp
  have "\<forall>x \<in> set (update_row t' (tasks s)). t_id x < task_seq s"
    using assms by (auto simp: primary_key_def update_row_def)
  with assms(1) ids show ?thesis by (simp add: primary_key_def)
qed

lemma delete_row_keeps_key:
  assumes "primary_key s"
  shows "primary_key (s\<lparr>tasks := delete_row t (tasks s)\<rparr>)"
  using assms by (auto simp: primary_key_def delete_row_def distinct_map_filter)

lemma selected_row:
  "scalar_one_or_none (select_task s task_id u) = Inr (Some t) \<Longrightarrow>
     t \<in> set (tasks s) \<and> t_id t = task_id \<and> t_user_id t = u"
proof -
  assume "scalar_one_or_none (select_task s task_id u) = Inr (Some t)"
  then have "select_task s task_id u = [t]"
    by (cases "select_task s task_id u" rule: scalar_one_or_none.cases) auto
  then have "t \<in> set (filter (\<lambda>t. t_id t = task_id \<and> t_user_id t = u) (tasks s))"
    by (simp add: select_task_def)
  then show ?thesis by simp
qed

lemma tools_keep_primary_key:
  assumes "primary_key s"
  shows "primary_key (snd (AddTaskTool_run UUID s user_id title description))"
    and "primary_key (snd (ListTasksTool_run UUID s user_id status))"
    and "primary_key (snd (CompleteTaskTool_run UUID s user_id task_id))"
    and "primary_key (snd (DeleteTaskTool_run UUID s user_id task_id))"
    and "primary_key (snd (UpdateTaskTool_run UUID s user_id task_id title' description'))"
proof -
  show "primary_key (snd (AddTaskTool_run UUID s user_id title description))"
    using assms
    by (cases "UUID user_id") (auto simp: AddTaskTool_run_def utcnow_def primary_key_def)
  show "primary_key (snd (ListTasksTool_run UUID s user_id status))"
    using assms by (cases "UUID user_id") (simp_all add: ListTasksTool_run_def)
  show "primary_key (snd (CompleteTaskTool_run UUID s user_id task_id))"
    using assms
    by (auto simp: CompleteTaskTool_run_def split: option.splits sum.splits
        dest!: selected_row intro!: update_row_keeps_key)
  show "primary_key (snd (DeleteTaskTool_run UUID s user_id task_id))"
    using assms
    by (auto simp: DeleteTaskTool_run_def split: option.splits sum.splits
        intro!: delete_row_keeps_key)
  show "primary_key (snd (UpdateTaskTool_run UUID s user_id task_id title' description'))"
    using assms
    by (auto simp: UpdateTaskTool_run_def split: option.splits sum.splits
        dest!: selected_row intro!: update_row_keeps_key)
qed

section \<open>The task tools\<close>

text \<open>
  Claim C3 (the length limits of \<open>add_task\<close>). The claim says that an empty title, a title of
  more than 200 characters or a description of more than 1000 characters is rejected with a
  \<open>validation_error\<close> before a task is stored. \<open>AddTaskTool.run\<close> checks the owner only, and
  \<open>execute_mcp_tool\<close> hands the arguments to it without applying the schema: with a
  well-formed owner, the empty title is stored and reported as created.
\<close>

theorem add_task_no_length_check:
  "AddTaskTool_run sample_UUID sample_session alice '''' None =
     (PDict [(''task_id'', PInt 4), (''status'', PStr ''created''), (''title'', PStr '''')],
      sample_session\<lparr>tasks := tasks sample_session @
          [\<lparr>t_id = 4, t_user_id = 10, t_title = '''', t_description = None,
            t_completed = False, t_created_at = 500, t_updated_at = 501\<rparr>],
        task_seq := 5, reads := 2\<rparr>)"
  by (simp add: AddTaskTool_run_def utcnow_def result_dict_def sample_defs)








text \<open>
  Claim C9 (\<open>list_tasks\<close>). For a well-formed owner the answer lists exactly the owner's tasks
  that pass the status filter (pending: not completed; completed: completed; otherwise all),
  ordered by creation time, newest first, and leaves the session as it was. An owner without
  tasks gets the empty list.
\<close>

theorem list_tasks_newest_first:
  assumes "UUID user_id = Some u"
  shows "\<exists>rows. ListTasksTool_run UUID s user_id status = (PList (map task_entry rows), s) \<and>
           mset rows = mset (filter (\<lambda>t. t_user_id t = u \<and>
                                 (status = ''pending'' \<longrightarrow> \<not> t_completed t) \<and>
                                 (status = ''completed'' \<longrightarrow> t_completed t)) (tasks s)) \<and>
           sorted_wrt (\<lambda>a b. t_created_at a \<ge> t_created_at b) rows \<and>
           ((\<forall>t \<in> set (tasks s). t_user_id t \<noteq> u) \<longrightarrow> rows = [])"
proof -
  let ?rows = "list_query s u status"
  have run: "ListTasksTool_run UUID s user_id status = (PList (map task_entry ?rows), s)"
    by (simp add: ListTasksTool_run_def assms)
  have same: "(\<lambda>t. t_user_id t = u \<and> status_filter status t) =
      (\<lambda>t. t_user_id t = u \<and> (status = ''pending'' \<longrightarrow> \<not> t_completed t) \<and>
                                 (status = ''completed'' \<longrightarrow> t_completed t))"
    by (auto simp: status_filter_def fun_eq_iff)
  have ms: "mset ?rows = mset (filter (\<lambda>t. t_user_id t = u \<and>
                                 (status = ''pending'' \<longrightarrow> \<not> t_completed t) \<and>
                                 (status = ''completed'' \<longrightarrow> t_completed t)) (tasks s))"
    unfolding list_query_def same by simp
  have "sorted (map (\<lambda>t. - t_created_at t) ?rows)"
    unfolding list_query_def by (rule sorted_sort_key)
  then have srt: "sorted_wrt (\<lambda>a b. t_created_at a \<ge> t_created_at b) ?rows"
    by (simp add: sorted_map)
  have emp: "(\<forall>t \<in> set (tasks s). t_user_id t \<noteq> u) \<longrightarrow> ?rows = []"
    by (auto simp: list_query_def filter_empty_conv)
  from run ms srt emp show ?thesis by blast
qed

text \<open>
  The instance of C9: alice's two tasks, the later one first.
\<close>

theorem list_tasks_newest_first_witness:
  "sample_UUID alice = Some 10 \<and>
   ListTasksTool_run sample_UUID sample_session alice ''all'' =
     (PList [PDict [(''id'', PInt 3), (''title'', PStr ''Pay rent''), (''completed'', PBool True)],
             PDict [(''id'', PInt 1), (''title'', PStr ''Buy milk''), (''completed'', PBool False)]],
      sample_session) \<and>
   (\<exists>rows. ListTasksTool_run sample_UUID sample_session alice ''pending'' =
              (PList (map task_entry rows), sample_session) \<and>
           mset rows = mset (filter (\<lambda>t. t_user_id t = 10 \<and>
                                 (''pending'' = ''pending'' \<longrightarrow> \<not> t_completed t) \<and>
                                 (''pending'' = ''completed'' \<longrightarrow> t_completed t))
                               (tasks sample_session)) \<and>
           sorted_wrt (\<lambda>a b. t_created_at a \<ge> t_created_at b) rows \<and>
           ((\<forall>t \<in> set (tasks sample_session). t_user_id t \<noteq> 10) \<longrightarrow> rows = []))"
proof -
  have h: "sample_UUID alice = Some 10" by (simp add: sample_defs)
  have e: "ListTasksTool_run sample_UUID sample_session alice ''all'' =
     (PList [PDict [(''id'', PInt 3), (''title'', PStr ''Pay rent''), (''completed'', PBool True)],
             PDict [(''id'', PInt 1), (''title'', PStr ''Buy milk''), (''completed'', PBool False)]],
      sample_session)"
    by (simp add: ListTasksTool_run_def list_query_def status_filter_def task_entry_def sample_defs)
  from h e list_tasks_newest_first [of sample_UUID alice 10 sample_session "''pending''", OF h]
  show ?thesis by blast
qed

text \<open>
  Claim C10 (the shape of the owner error). For a malformed owner \<open>list_tasks\<close> answers with
  a list whose single element is the \<open>validation_error\<close> dictionary, while \<open>add_task\<close>,
  \<open>complete_task\<close>, \<open>delete_task\<close> and \<open>update_task\<close> answer with that dictionary itself;
  the two shapes differ.
\<close>

theorem invalid_owner_error_shape:
  assumes "UUID user_id = None"
  shows "ListTasksTool_run UUID s user_id status =
           (PList [error_dict ''validation_error'' (''Invalid user_id format: '' @ user_id)], s) \<and>
         AddTaskTool_run UUID s user_id title description =
           (error_dict ''validation_error'' (''Invalid user_id format: '' @ user_id), s) \<and>
         CompleteTaskTool_run UUID s user_id task_id =
           (error_dict ''validation_error'' (''Invalid user_id format: '' @ user_id), s) \<and>
         DeleteTaskTool_run UUID s user_id task_id =
           (error_dict ''validation_error'' (''Invalid user_id format: '' @ user_id), s) \<and>
         UpdateTaskTool_run UUID s user_id task_id title' description' =
           (error_dict ''validation_error'' (''Invalid user_id format: '' @ user_id), s) \<and>
         PList [error_dict ''validation_error'' (''Invalid user_id format: '' @ user_id)] \<noteq>
           error_dict ''validation_error'' (''Invalid user_id format: '' @ user_id)"
  using assms
  by (simp add: ListTasksTool_run_def AddTaskTool_run_def CompleteTaskTool_run_def
      DeleteTaskTool_run_def UpdateTaskTool_run_def invalid_user_id_def error_dict_def)

text \<open>
  The instance of C10: the identifier \<open>invalid-uuid\<close>.
\<close>

theorem invalid_owner_error_shape_witness:
  "sample_UUID ''invalid-uuid'' = None \<and>
   fst (ListTasksTool_run sample_UUID sample_session ''invalid-uuid'' ''all'') =
     PList [PDict [(''error'', PStr ''validation_error''),
                   (''message'', PStr ''Invalid user_id format: invalid-uuid'')]] \<and>
   fst (CompleteTaskTool_run sample_UUID sample_session ''invalid-uuid'' 1) =
     PDict [(''error'', PStr ''validation_error''),
            (''message'', PStr ''Invalid user_id format: invalid-uuid'')]"
  using invalid_owner_error_shape [of sample_UUID "''invalid-uuid''" sample_session "''all''"
      undefined undefined 1 undefined undefined]
  by (simp add: sample_defs error_dict_def)

section \<open>The conversation store\<close>

lemma sort_desc_of_ascending:
  fixes f :: "'a \<Rightarrow> int"
  assumes "sorted_wrt (<) (map f xs)"
  shows "sort_key (\<lambda>x. - f x) xs = rev xs"
proof (rule properties_for_sort_key)
  show "mset (rev xs) = mset xs" by simp
next
  from assms have d: "distinct (map f xs)"
    by (simp add: strict_sorted_iff)
  fix k assume "k \<in> set (rev xs)"
  then have kin: "k \<in> set xs" by simp
  have "filter (\<lambda>x. f x = f k \<and> True) xs = [k]"
    using filter_unique_key [OF d kin, of "\<lambda>_. True"] by simp
  then have one: "filter (\<lambda>x. f k = f x) xs = [k]"
    by (simp add: eq_commute)
  show "filter (\<lambda>x. - f k = - f x) (rev xs) = filter (\<lambda>x. - f k = - f x) xs"
    by (simp add: rev_filter [symmetric] one)
next
  from assms have "sorted (map f xs)"
    by (simp add: strict_sorted_iff)
  then have "sorted (rev (map (\<lambda>x. - f x) xs))"
    by (induction xs) (auto simp: sorted_append)
  then show "sorted (map (\<lambda>x. - f x) (rev xs))" by (simp add: rev_map)
qed

lemma filter_touch:
  "filter (\<lambda>c. c_id c = cid \<and> c_user_id c = uid) (touch_conversation cid now cs) =
     map (\<lambda>c. c\<lparr>c_updated_at := now\<rparr>) (filter (\<lambda>c. c_id c = cid \<and> c_user_id c = uid) cs)"
  by (induction cs) (auto simp: touch_conversation_def)

lemma select_conversation_touch:
  "select_conversation (s\<lparr>conversations := touch_conversation cid now (conversations s)\<rparr>) cid uid =
     map (\<lambda>c. c\<lparr>c_updated_at := now\<rparr>) (select_conversation s cid uid)"
  by (simp add: select_conversation_def filter_touch)

text \<open>One append, on a session whose conversation is there.\<close>

lemma store_message_effect:
  assumes "select_conversation s cid uid = [c]"
    and "role = ''user'' \<or> role = ''assistant''"
    and "length content \<le> 5000"
  shows "\<exists>m s'. store_message s cid uid role content = Inr (m, s') \<and>
           select_conversation s' cid uid = [c\<lparr>c_updated_at := clock s (Suc (reads s))\<rparr>] \<and>
           conversation_rows s' cid = conversation_rows s cid @ [m] \<and>
           m_role m = role \<and> m_content m = content \<and> m_created_at m = clock s (reads s) \<and>
           clock s' = clock s \<and> reads s' = Suc (Suc (reads s))"
  using assms
  by (auto simp: store_message_def utcnow_def select_conversation_def filter_touch
      conversation_rows_def Let_def)

lemma store_messages_rows:
  assumes "strict_mono (clock s)"
    and "select_conversation s cid uid = [c]"
    and "\<forall>p \<in> set rcs. (fst p = ''user'' \<or> fst p = ''assistant'') \<and> length (snd p) \<le> 5000"
    and "sorted_wrt (<) (map m_created_at (conversation_rows s cid))"
    and "\<forall>m \<in> set (conversation_rows s cid). m_created_at m < clock s (reads s)"
  shows "\<exists>s'. store_messages s cid uid rcs = Inr s' \<and>
           (\<exists>c'. select_conversation s' cid uid = [c']) \<and>
           map message_entry (conversation_rows s' cid) =
             map message_entry (conversation_rows s cid) @
             map (\<lambda>p. PDict [(''role'', PStr (fst p)), (''content'', PStr (snd p))]) rcs \<and>
           sorted_wrt (<) (map m_created_at (conversation_rows s' cid))"
  using assms
proof (induction rcs arbitrary: s c)
  case Nil
  then show ?case by simp
next
  case (Cons p rcs)
  obtain role content where p: "p = (role, content)" by (cases p)
  from Cons.prems(3) p have role: "role = ''user'' \<or> role = ''assistant''"
    and short: "length content \<le> 5000" by simp_all
  from store_message_effect [OF Cons.prems(2) role short]
  obtain m s1 where st: "store_message s cid uid role content = Inr (m, s1)"
    and sel1: "select_conversation s1 cid uid = [c\<lparr>c_updated_at := clock s (Suc (reads s))\<rparr>]"
    and rows1: "conversation_rows s1 cid = conversation_rows s cid @ [m]"
    and m: "m_role m = role" "m_content m = content" "m_created_at m = clock s (reads s)"
    and clk: "clock s1 = clock s" "reads s1 = Suc (Suc (reads s))"
    by blast
  have mono1: "strict_mono (clock s1)" using Cons.prems(1) clk by simp
  have step: "clock s (reads s) < clock s (Suc (Suc (reads s)))"
    by (rule strict_monoD [OF Cons.prems(1)]) simp
  have sorted1: "sorted_wrt (<) (map m_created_at (conversation_rows s1 cid))"
    unfolding rows1 map_append sorted_wrt_append
    using Cons.prems(4,5) by (simp add: m(3))
  have bound1: "\<forall>m' \<in> set (conversation_rows s1 cid). m_created_at m' < clock s1 (reads s1)"
  proof
    fix m' assume "m' \<in> set (conversation_rows s1 cid)"
    then have "m' \<in> set (conversation_rows s cid) \<or> m' = m"
      unfolding rows1 by auto
    then have "m_created_at m' \<le> clock s (reads s)"
      using Cons.prems(5) m(3) by force
    with step show "m_created_at m' < clock s1 (reads s1)" by (simp add: clk)
  qed
  have roles1: "\<forall>p \<in> set rcs. (fst p = ''user'' \<or> fst p = ''assistant'') \<and>
      length (snd p) \<le> 5000"
    using Cons.prems(3) by simp
  from Cons.IH [OF mono1 sel1 roles1 sorted1 bound1]
  obtain s' where fin: "store_messages s1 cid uid rcs = Inr s'"
    and sel': "\<exists>c'. select_conversation s' cid uid = [c']"
    and rows': "map message_entry (conversation_rows s' cid) =
             map message_entry (conversation_rows s1 cid) @
             map (\<lambda>p. PDict [(''role'', PStr (fst p)), (''content'', PStr (snd p))]) rcs"
    and sorted': "sorted_wrt (<) (map m_created_at (conversation_rows s' cid))"
    by blast
  have "store_messages s cid uid (p # rcs) = Inr s'"
    by (simp add: p st fin)
  moreover have "map message_entry (conversation_rows s' cid) =
             map message_entry (conversation_rows s cid) @
             map (\<lambda>p. PDict [(''role'', PStr (fst p)), (''content'', PStr (snd p))]) (p # rcs)"
    by (simp add: rows' rows1 message_entry_def m p)
  ultimately show ?case using sel' sorted' by blast
qed

lemma sorted_neg_rev:
  fixes f :: "'a \<Rightarrow> int"
  shows "sorted (map (\<lambda>x. - f x) xs) \<Longrightarrow> sorted (map f (rev xs))"
  by (induction xs) (auto simp: sorted_append)

lemma recent_rows_all:
  assumes "sorted_wrt (<) (map m_created_at (conversation_rows s cid))"
    and "length (conversation_rows s cid) \<le> limit"
  shows "recent_rows s cid limit = conversation_rows s cid"
  using assms by (simp add: recent_rows_def sort_desc_of_ascending)

lemma recent_rows_newest:
  "\<exists>older. mset (recent_rows s cid limit) + mset older = mset (conversation_rows s cid) \<and>
            length (recent_rows s cid limit) = min limit (length (conversation_rows s cid)) \<and>
            sorted (map m_created_at (recent_rows s cid limit)) \<and>
            (\<forall>a \<in> set older. \<forall>b \<in> set (recent_rows s cid limit).
                m_created_at a \<le> m_created_at b)"
proof -
  let ?ys = "sort_key (\<lambda>m. - m_created_at m) (conversation_rows s cid)"
  have srt: "sorted (map (\<lambda>m. - m_created_at m) ?ys)" by (rule sorted_sort_key)
  have "mset (take limit ?ys) + mset (drop limit ?ys) = mset ?ys"
    by (metis append_take_drop_id mset_append)
  then have ms: "mset (recent_rows s cid limit) + mset (drop limit ?ys) =
      mset (conversation_rows s cid)"
    by (simp add: recent_rows_def)
  have len: "length (recent_rows s cid limit) = min limit (length (conversation_rows s cid))"
    by (simp add: recent_rows_def min.commute)
  have "sorted (map (\<lambda>m. - m_created_at m) (take limit ?ys @ drop limit ?ys))"
    using srt by simp
  then have parts: "sorted (map (\<lambda>m. - m_created_at m) (take limit ?ys))"
    and cross: "\<forall>b \<in> set (take limit ?ys). \<forall>a \<in> set (drop limit ?ys).
        - m_created_at b \<le> - m_created_at a"
    unfolding map_append sorted_append by simp_all
  have asc: "sorted (map m_created_at (recent_rows s cid limit))"
    unfolding recent_rows_def using parts by (rule sorted_neg_rev)
  have old: "\<forall>a \<in> set (drop limit ?ys). \<forall>b \<in> set (recent_rows s cid limit).
      m_created_at a \<le> m_created_at b"
    using cross by (auto simp: recent_rows_def)
  from ms len asc old show ?thesis by blast
qed

text \<open>
  What the read returns, for a conversation of the owner: at most \<open>limit\<close> messages of the
  conversation, in ascending order of creation time, and no message left out is newer than
  a returned one.
\<close>

lemma newest_messages_chronological:
  assumes "select_conversation s cid uid = [c]"
  shows "\<exists>older. get_conversation_messages s cid uid limit =
                     Inr (map message_entry (recent_rows s cid limit)) \<and>
            mset (recent_rows s cid limit) + mset older =
              mset (filter (\<lambda>m. m_conversation_id m = cid) (messages s)) \<and>
            length (recent_rows s cid limit) =
              min limit (length (filter (\<lambda>m. m_conversation_id m = cid) (messages s))) \<and>
            sorted (map m_created_at (recent_rows s cid limit)) \<and>
            (\<forall>a \<in> set older. \<forall>b \<in> set (recent_rows s cid limit).
                m_created_at a \<le> m_created_at b)"
proof -
  have "get_conversation_messages s cid uid limit =
      Inr (map message_entry (recent_rows s cid limit))"
    by (simp add: get_conversation_messages_def assms)
  with recent_rows_newest [of s cid limit] show ?thesis
    unfolding conversation_rows_def by blast
qed

text \<open>
  Reading back what was appended, when every reading of the clock is later than the one
  before: if no message of the session belongs to the conversation and \<open>n \<le> limit\<close>
  messages with valid roles and at most 5000 characters are appended one after the other,
  every append succeeds and the read that follows returns those \<open>n\<close> messages in the order
  of the appends.
\<close>

lemma round_trip_increasing_clock:
  assumes "select_conversation s cid uid = [c]"
    and "\<forall>m \<in> set (messages s). m_conversation_id m \<noteq> cid"
    and "strict_mono (clock s)"
    and "\<forall>p \<in> set rcs. (fst p = ''user'' \<or> fst p = ''assistant'') \<and> length (snd p) \<le> 5000"
    and "length rcs \<le> limit"
  shows "\<exists>s'. store_messages s cid uid rcs = Inr s' \<and>
               get_conversation_messages s' cid uid limit =
                 Inr (map (\<lambda>p. PDict [(''role'', PStr (fst p)), (''content'', PStr (snd p))])
                        rcs)"
proof -
  from assms(2) have fresh: "conversation_rows s cid = []"
    by (simp add: conversation_rows_def filter_empty_conv)
  from store_messages_rows [OF assms(3) assms(1) assms(4)] fresh
  obtain s' c' where fin: "store_messages s cid uid rcs = Inr s'"
    and sel': "select_conversation s' cid uid = [c']"
    and rows': "map message_entry (conversation_rows s' cid) =
             map (\<lambda>p. PDict [(''role'', PStr (fst p)), (''content'', PStr (snd p))]) rcs"
    and sorted': "sorted_wrt (<) (map m_created_at (conversation_rows s' cid))"
    by auto
  have "length (map message_entry (conversation_rows s' cid)) =
      length (map (\<lambda>p. PDict [(''role'', PStr (fst p)), (''content'', PStr (snd p))]) rcs)"
    by (simp only: rows')
  then have "length (conversation_rows s' cid) = length rcs"
    by (simp only: length_map)
  with assms(5) have all: "recent_rows s' cid limit = conversation_rows s' cid"
    using recent_rows_all [OF sorted'] by simp
  have "get_conversation_messages s' cid uid limit =
      Inr (map (\<lambda>p. PDict [(''role'', PStr (fst p)), (''content'', PStr (snd p))]) rcs)"
    by (simp add: get_conversation_messages_def sel' all rows')
  with fin show ?thesis by blast
qed

text \<open>
  Claim C6 (reading back what was appended). The query orders by \<open>created_at\<close> and by
  nothing else. On the session whose clock gives the same reading to every call, alice's
  conversation 1 has no message; three appends \<open>A\<close>, \<open>B\<close>, \<open>C\<close> succeed, in that order, and
  the read that follows, with the limit 50 of the chat route, returns \<open>C\<close>, \<open>B\<close>, \<open>A\<close>: the
  three rows tie, the descending sort keeps them as stored, and the reversal turns the
  order of the appends around. The message of bob's conversation 2 is not returned.
\<close>

theorem equal_timestamps_reverse_order:
  "filter (\<lambda>m. m_conversation_id m = 1) (messages frozen_clock_session) = [] \<and>
   (case store_messages frozen_clock_session 1 10
           [(''user'', ''A''), (''assistant'', ''B''), (''user'', ''C'')] of
      Inl e \<Rightarrow> False
    | Inr s' \<Rightarrow>
        get_conversation_messages s' 1 10 50 =
          Inr [PDict [(''role'', PStr ''user''), (''content'', PStr ''C'')],
               PDict [(''role'', PStr ''assistant''), (''content'', PStr ''B'')],
               PDict [(''role'', PStr ''user''), (''content'', PStr ''A'')]])"
  by (simp add: frozen_clock_session_def sample_session_def store_message_def
      select_conversation_def utcnow_def touch_conversation_def get_conversation_messages_def
      recent_rows_def conversation_rows_def message_entry_def Let_def)

section \<open>The orchestration loop\<close>

subsection \<open>The owner of every dispatched call\<close>

lemma map_of_update_same: "map_of (AList.update k v d) k = Some v"
  by (simp add: update_conv')

lemma call_execute_for_owner:
  "map_of kw ''user_id'' = Some (PStr uid) \<Longrightarrow>
     call_execute_mcp_tool (for_owner uid rt) name s kw = call_execute_mcp_tool rt name s kw"
  by (simp add: call_execute_mcp_tool_def execute_mcp_tool_def for_owner_def split: list.splits)

lemma execute_call_for_owner:
  "execute_call loads str_of (for_owner uid rt) uid tc s fm tcm =
     execute_call loads str_of rt uid tc s fm tcm"
proof (cases "loads (tc_arguments tc)")
  case (Inl e)
  then show ?thesis by (simp add: execute_call_def)
next
  case (Inr parsed)
  show ?thesis
  proof (cases "set_item parsed ''user_id'' (PStr uid)")
    case (Inl e)
    with Inr show ?thesis by (simp add: execute_call_def)
  next
    case r: (Inr tool_args)
    then obtain d where "parsed = PDict d" and "tool_args = AList.update ''user_id'' (PStr uid) d"
      by (cases parsed) auto
    then have "map_of tool_args ''user_id'' = Some (PStr uid)"
      by (simp add: map_of_update_same)
    then show ?thesis
      using Inr r by (simp add: execute_call_def call_execute_for_owner)
  qed
qed

lemma execute_calls_for_owner:
  "execute_calls loads str_of (for_owner uid rt) uid tcs s fm tcm =
     execute_calls loads str_of rt uid tcs s fm tcm"
  by (induction tcs arbitrary: s fm tcm)
     (simp_all add: execute_call_for_owner split: prod.splits sum.splits)

lemma run_loop_for_owner:
  "run_loop loads str_of create (for_owner uid rt) uid mx e s fm tcm it =
     run_loop loads str_of create rt uid mx e s fm tcm it"
proof (induction "nat (mx - it)" arbitrary: it e s fm tcm)
  case 0
  then have "\<not> it < mx" by simp
  then show ?case by (simp add: run_loop.simps)
next
  case (Suc k)
  then have lt: "it < mx" and k: "k = nat (mx - (it + 1))" by auto
  note IH = Suc.hyps(1) [OF k]
  show ?case
    apply (subst run_loop.simps)
    apply (subst (2) run_loop.simps)
    apply (simp add: lt execute_calls_for_owner IH del: execute_calls.simps
        split: prod.splits sum.splits option.splits list.splits)
    done
qed

lemma entry_user_id_audit:
  "entry_user_id (audit_entry name tool_args res) = map_of tool_args ''user_id''"
  by (simp add: entry_user_id_def audit_entry_def)

lemma trail_of_results:
  "trail_of (final_result content tcm i) = tcm" "trail_of (budget_result tcm i) = tcm"
  by (simp_all add: trail_of_def final_result_def budget_result_def)

lemma execute_call_trail:
  assumes "execute_call loads str_of rt uid tc s fm tcm = (Inr (fm', tcm'), s')"
    and "\<forall>entry \<in> set tcm. entry_user_id entry = Some (PStr uid)"
  shows "\<forall>entry \<in> set tcm'. entry_user_id entry = Some (PStr uid)"
proof -
  from assms(1) obtain parsed tool_args res where
    set: "set_item parsed ''user_id'' (PStr uid) = Inr tool_args"
    and tcm': "tcm' = tcm @ [audit_entry (tc_name tc) tool_args res]"
    by (auto simp: execute_call_def split: sum.splits prod.splits)
  from set obtain d where "tool_args = AList.update ''user_id'' (PStr uid) d"
    by (cases parsed) auto
  then have "map_of tool_args ''user_id'' = Some (PStr uid)"
    by (simp add: map_of_update_same)
  with assms(2) show ?thesis by (simp add: tcm' entry_user_id_audit)
qed

lemma execute_calls_trail:
  assumes "execute_calls loads str_of rt uid tcs s fm tcm = (Inr (fm', tcm'), s')"
    and "\<forall>entry \<in> set tcm. entry_user_id entry = Some (PStr uid)"
  shows "\<forall>entry \<in> set tcm'. entry_user_id entry = Some (PStr uid)"
  using assms
proof (induction tcs arbitrary: s fm tcm)
  case Nil
  then show ?case by simp
next
  case (Cons tc tcs)
  from Cons.prems(1) obtain fm1 tcm1 s1 where
    one: "execute_call loads str_of rt uid tc s fm tcm = (Inr (fm1, tcm1), s1)"
    and rest: "execute_calls loads str_of rt uid tcs s1 fm1 tcm1 = (Inr (fm', tcm'), s')"
    by (auto split: prod.splits sum.splits)
  from execute_call_trail [OF one Cons.prems(2)]
  have "\<forall>entry \<in> set tcm1. entry_user_id entry = Some (PStr uid)" .
  with Cons.IH [OF rest] show ?case by blast
qed

lemma run_loop_trail:
  assumes "run_loop loads str_of create rt uid mx e s fm tcm it = (Inr r, e', s')"
    and "\<forall>entry \<in> set tcm. entry_user_id entry = Some (PStr uid)"
  shows "\<forall>entry \<in> set (trail_of r). entry_user_id entry = Some (PStr uid)"
  using assms
proof (induction "nat (mx - it)" arbitrary: it e s fm tcm)
  case 0
  then have "\<not> it < mx" by simp
  with "0.prems" show ?case by (auto simp: run_loop.simps trail_of_results)
next
  case (Suc k)
  then have lt: "it < mx" and k: "k = nat (mx - (it + 1))" by auto
  obtain x e1 where cr: "create e fm = (x, e1)" by (cases "create e fm")
  show ?case
  proof (cases x)
    case (Inl err)
    with Suc.prems(1) lt cr show ?thesis by (simp add: run_loop.simps)
  next
    case (Inr m)
    show ?thesis
    proof (cases "\<exists>tc tcs. am_tool_calls m = Some (tc # tcs)")
      case False
      then have "run_loop loads str_of create rt uid mx e s fm tcm it =
          (Inr (final_result (am_content m) tcm (it + 1)), e1, s)"
        using lt cr Inr
        by (subst run_loop.simps) (auto split: option.splits list.splits)
      with Suc.prems show ?thesis by (auto simp: trail_of_results)
    next
      case True
      then obtain tc tcs where tcs: "am_tool_calls m = Some (tc # tcs)" by blast
      obtain y s1 where ex: "execute_calls loads str_of rt uid (tc # tcs) s
          (fm @ [assistant_entry m (tc # tcs)]) tcm = (y, s1)"
        by (cases "execute_calls loads str_of rt uid (tc # tcs) s
          (fm @ [assistant_entry m (tc # tcs)]) tcm")
      show ?thesis
      proof (cases y)
        case (Inl err)
        have "run_loop loads str_of create rt uid mx e s fm tcm it = (Inl err, e1, s1)"
          using lt cr Inr tcs ex Inl
          by (subst run_loop.simps) (simp del: execute_calls.simps)
        with Suc.prems(1) show ?thesis by simp
      next
        case r: (Inr p)
        obtain fm1 tcm1 where p: "p = (fm1, tcm1)" by (cases p)
        have step: "run_loop loads str_of create rt uid mx e s fm tcm it =
            run_loop loads str_of create rt uid mx e1 s1 fm1 tcm1 (it + 1)"
          using lt cr Inr tcs ex r p
          by (subst run_loop.simps) (simp del: execute_calls.simps)
        have inv: "\<forall>entry \<in> set tcm1. entry_user_id entry = Some (PStr uid)"
          using execute_calls_trail [OF ex [unfolded r p] Suc.prems(2)] .
        from Suc.hyps(1) [OF k _ inv] Suc.prems(1) step show ?thesis by simp
      qed
    qed
  qed
qed

lemma returned_conv: "returned p = (Inr (fst p), snd p)"
  by (cases p) simp

lemma scripted_run:
  "AgentRunner_run sample_loads sample_str scripted_engine
       (registered_tools sample_UUID sample_untyped) ''You are a helpful assistant.''
       0 sample_session alice [PDict [(''role'', PStr ''user''), (''content'', PStr ''hi'')]] 5 =
     (Inr (PDict [(''assistant_message'', PStr ''Got it!''),
                  (''tool_calls'',
                   PList [PDict [(''tool'', PStr ''add_task''),
                                 (''arguments'', PDict [(''title'', PStr ''Buy bread''),
                                                        (''user_id'', PStr alice)]),
                                 (''result'', PDict [(''task_id'', PInt 4),
                                                     (''status'', PStr ''created''),
                                                     (''title'', PStr ''Buy bread'')])]]),
                  (''iterations'', PInt 2)]),
      2,
      sample_session\<lparr>tasks := tasks sample_session @
          [\<lparr>t_id = 4, t_user_id = 10, t_title = ''Buy bread'', t_description = None,
            t_completed = False, t_created_at = 500, t_updated_at = 501\<rparr>],
        task_seq := 5, reads := 2\<rparr>)"
  by (simp add: AgentRunner_run_def run_loop.simps sample_loop_defs
      execute_call_def call_execute_mcp_tool_def execute_mcp_tool_def tool_names_def
      registered_tools_def check_signature_def AddTaskTool_run_def utcnow_def result_dict_def
      audit_entry_def final_result_def sample_defs)

text \<open>
  Claim C2 (the owner is the caller). Whatever the engine answers and whatever
  \<open>user_id\<close> it writes into the arguments it requests, a run for the caller \<open>user_id\<close>
  behaves exactly as it does with a dispatcher that refuses every call whose \<open>user_id\<close>
  argument is not the caller: no such call is ever made. Every entry of the audit trail of
  a returned result records the caller as \<open>user_id\<close>.
\<close>

theorem owner_injected:
  "AgentRunner_run loads str_of create (for_owner user_id run_tool) system_prompt e session
       user_id msgs max_iterations =
     AgentRunner_run loads str_of create run_tool system_prompt e session
       user_id msgs max_iterations \<and>
   (\<forall>r e' session'.
      AgentRunner_run loads str_of create run_tool system_prompt e session
        user_id msgs max_iterations = (Inr r, e', session') \<longrightarrow>
      (\<forall>entry \<in> set (trail_of r). entry_user_id entry = Some (PStr user_id)))"
  unfolding AgentRunner_run_def
  using run_loop_trail [of loads str_of create run_tool user_id max_iterations e session _ "[]" 0]
  by (auto simp: run_loop_for_owner)

text \<open>
  The instance of C2: the engine asks \<open>add_task\<close> with bob's identifier in the arguments
  while alice is the caller; the audit trail records alice and the new task is alice's.
\<close>

theorem owner_injected_witness:
  "sample_loads (tc_arguments add_for_bob) =
     Inr (PDict [(''title'', PStr ''Buy bread''), (''user_id'', PStr bob)]) \<and>
   AgentRunner_run sample_loads sample_str scripted_engine
       (for_owner alice (registered_tools sample_UUID sample_untyped))
       ''You are a helpful assistant.'' 0 sample_session alice
       [PDict [(''role'', PStr ''user''), (''content'', PStr ''hi'')]] 5 =
     AgentRunner_run sample_loads sample_str scripted_engine
       (registered_tools sample_UUID sample_untyped)
       ''You are a helpful assistant.'' 0 sample_session alice
       [PDict [(''role'', PStr ''user''), (''content'', PStr ''hi'')]] 5 \<and>
   (\<exists>r e' session'.
      AgentRunner_run sample_loads sample_str scripted_engine
        (registered_tools sample_UUID sample_untyped)
        ''You are a helpful assistant.'' 0 sample_session alice
        [PDict [(''role'', PStr ''user''), (''content'', PStr ''hi'')]] 5 = (Inr r, e', session') \<and>
      map entry_user_id (trail_of r) = [Some (PStr alice)] \<and>
      map t_user_id (tasks session') = [10, 11, 10, 10])"
  using owner_injected [of sample_loads sample_str scripted_engine alice
      "registered_tools sample_UUID sample_untyped" "''You are a helpful assistant.''" 0
      sample_session "[PDict [(''role'', PStr ''user''), (''content'', PStr ''hi'')]]" 5]
  by (simp add: scripted_run trail_of_def entry_user_id_def)
     (simp add: sample_defs sample_loop_defs)

subsection \<open>The iteration budget\<close>

lemma counting_apply:
  "counting create (n, e) fm = (case create e fm of (r, e') \<Rightarrow> (r, (Suc n, e')))"
  by (simp add: counting_def)

lemma run_loop_count_le:
  "fst (fst (snd (run_loop loads str_of (counting create) rt uid mx (n, e) s fm tcm it)))
     \<le> n + nat (mx - it)"
proof (induction "nat (mx - it)" arbitrary: it n e s fm tcm)
  case 0
  then have "\<not> it < mx" by simp
  then show ?case by (simp add: run_loop.simps)
next
  case (Suc k)
  then have lt: "it < mx" and k: "k = nat (mx - (it + 1))" by auto
  have bound: "Suc n + nat (mx - (it + 1)) = n + nat (mx - it)" using lt by simp
  obtain x e1 where cr: "create e fm = (x, e1)" by (cases "create e fm")
  then have cc: "counting create (n, e) fm = (x, (Suc n, e1))" by (simp add: counting_apply)
  show ?case
  proof (cases x)
    case (Inl err)
    with lt cc show ?thesis by (simp add: run_loop.simps)
  next
    case (Inr m)
    show ?thesis
    proof (cases "\<exists>tc tcs. am_tool_calls m = Some (tc # tcs)")
      case False
      then have "run_loop loads str_of (counting create) rt uid mx (n, e) s fm tcm it =
          (Inr (final_result (am_content m) tcm (it + 1)), (Suc n, e1), s)"
        using lt cc Inr
        by (subst run_loop.simps) (auto split: option.splits list.splits)
      with lt show ?thesis by simp
    next
      case True
      then obtain tc tcs where tcs: "am_tool_calls m = Some (tc # tcs)" by blast
      obtain y s1 where ex: "execute_calls loads str_of rt uid (tc # tcs) s
          (fm @ [assistant_entry m (tc # tcs)]) tcm = (y, s1)"
        by (cases "execute_calls loads str_of rt uid (tc # tcs) s
          (fm @ [assistant_entry m (tc # tcs)]) tcm")
      show ?thesis
      proof (cases y)
        case (Inl err)
        have "run_loop loads str_of (counting create) rt uid mx (n, e) s fm tcm it =
            (Inl err, (Suc n, e1), s1)"
          using lt cc Inr tcs ex Inl
          by (subst run_loop.simps) (simp del: execute_calls.simps)
        with lt show ?thesis by simp
      next
        case r: (Inr p)
        obtain fm1 tcm1 where p: "p = (fm1, tcm1)" by (cases p)
        have step: "run_loop loads str_of (counting create) rt uid mx (n, e) s fm tcm it =
            run_loop loads str_of (counting create) rt uid mx (Suc n, e1) s1 fm1 tcm1 (it + 1)"
          using lt cc Inr tcs ex r p
          by (subst run_loop.simps) (simp del: execute_calls.simps)
        from Suc.hyps(1) [OF k, of "Suc n" e1 s1 fm1 tcm1] show ?thesis
          unfolding step bound .
      qed
    qed
  qed
qed

lemma execute_call_dispatches:
  assumes "dispatches loads rt uid tc"
  shows "\<exists>fm' entry s'. execute_call loads str_of rt uid tc s fm tcm =
           (Inr (fm', tcm @ [entry]), s')"
proof -
  from assms obtain d where ld: "loads (tc_arguments tc) = Inr (PDict d)"
    and call: "\<forall>session. \<exists>r session'.
             call_execute_mcp_tool rt (tc_name tc) session
               (AList.update ''user_id'' (PStr uid) d) = (Inr r, session')"
    unfolding dispatches_def by blast
  from call obtain r s' where
    "call_execute_mcp_tool rt (tc_name tc) s (AList.update ''user_id'' (PStr uid) d) = (Inr r, s')"
    by blast
  then show ?thesis by (simp add: execute_call_def ld)
qed

lemma execute_calls_dispatch:
  assumes "\<forall>c \<in> set tcs. dispatches loads rt uid c"
  shows "\<exists>fm' ext s'. execute_calls loads str_of rt uid tcs s fm tcm =
           (Inr (fm', tcm @ ext), s') \<and> length ext = length tcs"
  using assms
proof (induction tcs arbitrary: s fm tcm)
  case Nil
  then show ?case by simp
next
  case (Cons tc tcs)
  then have "dispatches loads rt uid tc" by simp
  from execute_call_dispatches [OF this, of str_of s fm tcm]
  obtain fm1 entry s1 where one:
    "execute_call loads str_of rt uid tc s fm tcm = (Inr (fm1, tcm @ [entry]), s1)" by blast
  from Cons.prems have "\<forall>c \<in> set tcs. dispatches loads rt uid c" by simp
  from Cons.IH [OF this, of s1 fm1 "tcm @ [entry]"]
  obtain fm' ext s' where rest:
    "execute_calls loads str_of rt uid tcs s1 fm1 (tcm @ [entry]) =
       (Inr (fm', (tcm @ [entry]) @ ext), s')" and len: "length ext = length tcs" by blast
  have "execute_calls loads str_of rt uid (tc # tcs) s fm tcm =
      (Inr (fm', tcm @ (entry # ext)), s')"
    by (simp add: one rest)
  with len show ?case by (metis length_Cons)
qed

lemma run_loop_exact:
  assumes "always_requests loads rt uid create" and "it \<le> mx"
  shows "\<exists>ext e' s'. run_loop loads str_of (counting create) rt uid mx (n, e) s fm tcm it =
           (Inr (budget_result (tcm @ ext) mx), (n + nat (mx - it), e'), s') \<and>
           nat (mx - it) \<le> length ext"
  using assms(2)
proof (induction "nat (mx - it)" arbitrary: it n e s fm tcm)
  case 0
  then have "it = mx" by simp
  then have "run_loop loads str_of (counting create) rt uid mx (n, e) s fm tcm it =
      (Inr (budget_result (tcm @ []) mx), (n + nat (mx - it), e), s)"
    by (simp add: run_loop.simps)
  then show ?case by (metis le0 \<open>0 = nat (mx - it)\<close>)
next
  case (Suc k)
  then have lt: "it < mx" and k: "k = nat (mx - (it + 1))" and le: "it + 1 \<le> mx" by auto
  have bound: "Suc n + nat (mx - (it + 1)) = n + nat (mx - it)" using lt by simp
  from assms(1) obtain m e1 tc tcs where cr: "create e fm = (Inr m, e1)"
    and tcs: "am_tool_calls m = Some (tc # tcs)"
    and disp: "\<forall>c \<in> set (tc # tcs). dispatches loads rt uid c"
    unfolding always_requests_def by blast
  from cr have cc: "counting create (n, e) fm = (Inr m, (Suc n, e1))"
    by (simp add: counting_apply)
  from execute_calls_dispatch [OF disp, of str_of s "fm @ [assistant_entry m (tc # tcs)]" tcm]
  obtain fm1 ext1 s1 where ex: "execute_calls loads str_of rt uid (tc # tcs) s
          (fm @ [assistant_entry m (tc # tcs)]) tcm = (Inr (fm1, tcm @ ext1), s1)"
    and len1: "length ext1 = length (tc # tcs)" by blast
  have step: "run_loop loads str_of (counting create) rt uid mx (n, e) s fm tcm it =
      run_loop loads str_of (counting create) rt uid mx (Suc n, e1) s1 fm1 (tcm @ ext1) (it + 1)"
    using lt cc tcs ex
    by (subst run_loop.simps) (simp del: execute_calls.simps)
  from Suc.hyps(1) [OF k le, of "Suc n" e1 s1 fm1 "tcm @ ext1"]
  obtain ext e' s' where fin:
    "run_loop loads str_of (counting create) rt uid mx (Suc n, e1) s1 fm1 (tcm @ ext1) (it + 1) =
       (Inr (budget_result ((tcm @ ext1) @ ext) mx), (Suc n + nat (mx - (it + 1)), e'), s')"
    and len: "nat (mx - (it + 1)) \<le> length ext" by blast
  have "run_loop loads str_of (counting create) rt uid mx (n, e) s fm tcm it =
      (Inr (budget_result (tcm @ (ext1 @ ext)) mx), (n + nat (mx - it), e'), s')"
    using step fin bound by simp
  moreover have "nat (mx - it) \<le> length (ext1 @ ext)"
    using len len1 lt by simp
  ultimately show ?case by blast
qed

lemma insistent_always_requests:
  "always_requests sample_loads (registered_tools sample_UUID sample_untyped) alice
     insistent_engine"
proof -
  have "dispatches sample_loads (registered_tools sample_UUID sample_untyped) alice add_for_bob"
    unfolding dispatches_def
    by (simp add: sample_loop_defs call_execute_mcp_tool_def execute_mcp_tool_def
        tool_names_def registered_tools_def check_signature_def returned_conv)
  then show ?thesis
    unfolding always_requests_def by (simp add: insistent_engine_def)
qed

lemma loop_state_after_run:
  "loop_state_after loads str_of create rt uid mx k (e, s, fm, tcm, it) =
     Some (e1, s1, fm1, tcm1, it1) \<Longrightarrow>
   run_loop loads str_of create rt uid mx e s fm tcm it =
     run_loop loads str_of create rt uid mx e1 s1 fm1 tcm1 it1"
proof (induction k arbitrary: e s fm tcm it)
  case 0
  then show ?case by simp
next
  case (Suc k)
  from Suc.prems have lt: "it < mx" by (simp split: if_splits)
  obtain x e' where cr: "create e fm = (x, e')" by (cases "create e fm")
  from Suc.prems lt cr obtain m where x: "x = Inr m" by (cases x) simp_all
  from Suc.prems lt cr x obtain tc tcs where tcs: "am_tool_calls m = Some (tc # tcs)"
    by (cases "am_tool_calls m"; cases "the (am_tool_calls m)") simp_all
  obtain y s' where ex: "execute_calls loads str_of rt uid (tc # tcs) s
      (fm @ [assistant_entry m (tc # tcs)]) tcm = (y, s')"
    by (cases "execute_calls loads str_of rt uid (tc # tcs) s
      (fm @ [assistant_entry m (tc # tcs)]) tcm")
  from Suc.prems lt cr x tcs ex obtain fm' tcm' where y: "y = Inr (fm', tcm')"
    by (cases y) (auto simp del: execute_calls.simps)
  from Suc.prems lt cr x tcs ex y
  have next_state: "loop_state_after loads str_of create rt uid mx k (e', s', fm', tcm', it + 1) =
      Some (e1, s1, fm1, tcm1, it1)"
    by (simp del: execute_calls.simps)
  have "run_loop loads str_of create rt uid mx e s fm tcm it =
      run_loop loads str_of create rt uid mx e' s' fm' tcm' (it + 1)"
    using lt cr x tcs ex y by (subst run_loop.simps) (simp del: execute_calls.simps)
  with Suc.IH [OF next_state] show ?case by simp
qed

lemma execute_calls_raise:
  "execute_calls loads str_of rt uid pre s fm tcm = (Inr (fm2, tcm2), s2) \<Longrightarrow>
   execute_call loads str_of rt uid c s2 fm2 tcm2 = (Inl err, s3) \<Longrightarrow>
   execute_calls loads str_of rt uid (pre @ c # post) s fm tcm = (Inl err, s3)"
proof (induction pre arbitrary: s fm tcm)
  case Nil
  then show ?case by simp
next
  case (Cons a pre)
  obtain y s' where one: "execute_call loads str_of rt uid a s fm tcm = (y, s')"
    by (cases "execute_call loads str_of rt uid a s fm tcm")
  from Cons.prems(1) one obtain fm' tcm' where y: "y = Inr (fm', tcm')"
    by (cases y) auto
  from Cons.prems(1) one y
  have "execute_calls loads str_of rt uid pre s' fm' tcm' = (Inr (fm2, tcm2), s2)" by simp
  from Cons.IH [OF this Cons.prems(2)] show ?case by (simp add: one y)
qed

lemma run_loop_raise:
  assumes "it < mx" and "create e fm = (Inr m, e2)"
    and "am_tool_calls m = Some (pre @ c # post)"
    and "execute_calls loads str_of rt uid pre s (fm @ [assistant_entry m (pre @ c # post)]) tcm =
           (Inr (fm2, tcm2), s2)"
    and "execute_call loads str_of rt uid c s2 fm2 tcm2 = (Inl err, s3)"
  shows "run_loop loads str_of create rt uid mx e s fm tcm it = (Inl err, e2, s3)"
proof -
  obtain tc tcs where split: "pre @ c # post = tc # tcs" by (cases pre) auto
  have "execute_calls loads str_of rt uid (pre @ c # post) s
      (fm @ [assistant_entry m (pre @ c # post)]) tcm = (Inl err, s3)"
    using assms(4,5) by (rule execute_calls_raise)
  then have ex: "execute_calls loads str_of rt uid (tc # tcs) s
      (fm @ [assistant_entry m (tc # tcs)]) tcm = (Inl err, s3)"
    by (simp only: split)
  from assms(3) have tcs: "am_tool_calls m = Some (tc # tcs)" by (simp only: split)
  show ?thesis
    using assms(1,2) tcs ex by (subst run_loop.simps) (simp del: execute_calls.simps)
qed

lemma execute_call_malformed:
  "loads (tc_arguments tc) = Inl err \<Longrightarrow>
   execute_call loads str_of rt uid tc s fm tcm = (Inl err, s)"
  by (simp add: execute_call_def)

lemma update_keys_filter:
  "k \<notin> set ks \<Longrightarrow> filter (\<lambda>x. x \<in> set ks) (map fst (AList.update k v d)) =
     filter (\<lambda>x. x \<in> set ks) (map fst d)"
  by (induction d) auto

lemma execute_call_unknown:
  assumes "loads (tc_arguments tc) = Inr (PDict d)"
    and "''tool_name'' \<notin> fst ` set d" and "''session'' \<notin> fst ` set d"
    and "tc_name tc \<notin> set tool_names"
  shows "execute_call loads str_of rt uid tc s fm tcm =
           (Inl (ValueError (''Unknown tool: '' @ tc_name tc)), s)"
proof -
  have "filter (\<lambda>k. k \<in> set [''tool_name'', ''session''])
          (map fst (AList.update ''user_id'' (PStr uid) d)) =
        filter (\<lambda>k. k \<in> set [''tool_name'', ''session'']) (map fst d)"
    by (rule update_keys_filter) simp
  also have "\<dots> = []" using assms(2,3) by (force simp: filter_empty_conv)
  finally have "call_execute_mcp_tool rt (tc_name tc) s (AList.update ''user_id'' (PStr uid) d) =
      (Inl (ValueError (''Unknown tool: '' @ tc_name tc)), s)"
    using assms(4) by (simp add: call_execute_mcp_tool_def execute_mcp_tool_def)
  then show ?thesis by (simp add: execute_call_def assms(1))
qed

lemma late_failure_first_step:
  "\<exists>s1 fm1 tcm1.
     loop_state_after sample_loads sample_str late_failure_engine
       (registered_tools sample_UUID sample_untyped) alice 5 1
       (0, sample_session,
        [PDict [(''role'', PStr ''system''), (''content'', PStr ''You are a helpful assistant.'')]]
          @ [PDict [(''role'', PStr ''user''), (''content'', PStr ''hi'')]],
        [], 0) = Some (1, s1, fm1, tcm1, 1) \<and> length (tasks s1) = 4"
  by (simp add: sample_loop_defs execute_call_def call_execute_mcp_tool_def
      execute_mcp_tool_def tool_names_def registered_tools_def check_signature_def
      AddTaskTool_run_def utcnow_def sample_defs)

text \<open>
  Claim C1 (the iteration budget), as amended. For every engine, decoder and dispatcher the
  loop makes at most \<open>max_iterations\<close> reasoning calls (none when \<open>max_iterations\<close> is not
  positive), also when the run ends with an exception. If the engine asks for at least one
  tool call at every step and every requested call dispatches without raising, the loop
  makes exactly \<open>max_iterations\<close> reasoning calls and returns the apology, the audit trail
  of the calls made (at least one per step), the counter, and the marker
  \<open>max_iterations_reached\<close>. A requested call that raises ends the run with its exception:
  if, after any number of passes through the loop, the engine asks for tool calls of which
  one raises once those before it have gone through, the run ends with that exception, with
  the engine and the session as they then are. A call whose arguments the decoder rejects
  raises the exception of the decoder. A call that names a tool outside the registry, with a
  JSON object as arguments that has neither the key \<open>tool_name\<close> nor the key \<open>session\<close>,
  raises \<open>ValueError\<close> with the text \<open>Unknown tool:\<close> and the name.
\<close>

theorem loop_budget:
  "fst (fst (snd (AgentRunner_run loads str_of (counting create) run_tool system_prompt
                    (0, e) session user_id msgs max_iterations))) \<le> nat max_iterations \<and>
   (always_requests loads run_tool user_id create \<and> 0 \<le> max_iterations \<longrightarrow>
      (\<exists>trail e' session'.
         AgentRunner_run loads str_of (counting create) run_tool system_prompt
           (0, e) session user_id msgs max_iterations =
           (Inr (PDict [(''assistant_message'', PStr apology),
                        (''tool_calls'', PList trail),
                        (''iterations'', PInt max_iterations),
                        (''error'', PStr ''max_iterations_reached'')]),
            (nat max_iterations, e'), session') \<and>
         nat max_iterations \<le> length trail)) \<and>
   (loop_state_after loads str_of create run_tool user_id max_iterations k
        (e, session,
         [PDict [(''role'', PStr ''system''), (''content'', PStr system_prompt)]] @ msgs,
         [], 0) = Some (e1, s1, fm1, tcm1, it1) \<and>
    it1 < max_iterations \<and> create e1 fm1 = (Inr m, e2) \<and>
    am_tool_calls m = Some (pre @ c # post) \<and>
    execute_calls loads str_of run_tool user_id pre s1
      (fm1 @ [assistant_entry m (pre @ c # post)]) tcm1 = (Inr (fm2, tcm2), s2) \<and>
    execute_call loads str_of run_tool user_id c s2 fm2 tcm2 = (Inl err, s3) \<longrightarrow>
      AgentRunner_run loads str_of create run_tool system_prompt e session user_id msgs
        max_iterations = (Inl err, e2, s3)) \<and>
   (loads (tc_arguments tc) = Inl decode_error \<longrightarrow>
      execute_call loads str_of run_tool user_id tc s fm tcm = (Inl decode_error, s)) \<and>
   (loads (tc_arguments tc) = Inr (PDict d) \<and> ''tool_name'' \<notin> fst ` set d \<and>
    ''session'' \<notin> fst ` set d \<and> tc_name tc \<notin> set tool_names \<longrightarrow>
      execute_call loads str_of run_tool user_id tc s fm tcm =
        (Inl (ValueError (''Unknown tool: '' @ tc_name tc)), s))"
proof (intro conjI impI)
  show "fst (fst (snd (AgentRunner_run loads str_of (counting create) run_tool system_prompt
                    (0, e) session user_id msgs max_iterations))) \<le> nat max_iterations"
    unfolding AgentRunner_run_def
    using run_loop_count_le [of loads str_of create run_tool user_id max_iterations 0 e session _ "[]" 0]
    by simp
next
  assume "always_requests loads run_tool user_id create \<and> 0 \<le> max_iterations"
  then have a: "always_requests loads run_tool user_id create" and b: "0 \<le> max_iterations"
    by auto
  from run_loop_exact [OF a b, of str_of 0 e session _ "[]"]
  show "\<exists>trail e' session'.
         AgentRunner_run loads str_of (counting create) run_tool system_prompt
           (0, e) session user_id msgs max_iterations =
           (Inr (PDict [(''assistant_message'', PStr apology),
                        (''tool_calls'', PList trail),
                        (''iterations'', PInt max_iterations),
                        (''error'', PStr ''max_iterations_reached'')]),
            (nat max_iterations, e'), session') \<and>
         nat max_iterations \<le> length trail"
    unfolding AgentRunner_run_def budget_result_def by simp
next
  assume h: "loop_state_after loads str_of create run_tool user_id max_iterations k
        (e, session,
         [PDict [(''role'', PStr ''system''), (''content'', PStr system_prompt)]] @ msgs,
         [], 0) = Some (e1, s1, fm1, tcm1, it1) \<and>
    it1 < max_iterations \<and> create e1 fm1 = (Inr m, e2) \<and>
    am_tool_calls m = Some (pre @ c # post) \<and>
    execute_calls loads str_of run_tool user_id pre s1
      (fm1 @ [assistant_entry m (pre @ c # post)]) tcm1 = (Inr (fm2, tcm2), s2) \<and>
    execute_call loads str_of run_tool user_id c s2 fm2 tcm2 = (Inl err, s3)"
  then have reach: "loop_state_after loads str_of create run_tool user_id max_iterations k
        (e, session,
         [PDict [(''role'', PStr ''system''), (''content'', PStr system_prompt)]] @ msgs,
         [], 0) = Some (e1, s1, fm1, tcm1, it1)"
    and lt: "it1 < max_iterations" and cr: "create e1 fm1 = (Inr m, e2)"
    and calls: "am_tool_calls m = Some (pre @ c # post)"
    and before: "execute_calls loads str_of run_tool user_id pre s1
      (fm1 @ [assistant_entry m (pre @ c # post)]) tcm1 = (Inr (fm2, tcm2), s2)"
    and raise: "execute_call loads str_of run_tool user_id c s2 fm2 tcm2 = (Inl err, s3)"
    by blast+
  have "AgentRunner_run loads str_of create run_tool system_prompt e session user_id msgs
        max_iterations =
      run_loop loads str_of create run_tool user_id max_iterations e1 s1 fm1 tcm1 it1"
    unfolding AgentRunner_run_def using reach by (rule loop_state_after_run)
  also have "\<dots> = (Inl err, e2, s3)"
    using lt cr calls before raise by (rule run_loop_raise)
  finally show "AgentRunner_run loads str_of create run_tool system_prompt e session user_id
        msgs max_iterations = (Inl err, e2, s3)" .
next
  assume "loads (tc_arguments tc) = Inl decode_error"
  then show "execute_call loads str_of run_tool user_id tc s fm tcm = (Inl decode_error, s)"
    by (rule execute_call_malformed)
next
  assume "loads (tc_arguments tc) = Inr (PDict d) \<and> ''tool_name'' \<notin> fst ` set d \<and>
    ''session'' \<notin> fst ` set d \<and> tc_name tc \<notin> set tool_names"
  then show "execute_call loads str_of run_tool user_id tc s fm tcm =
        (Inl (ValueError (''Unknown tool: '' @ tc_name tc)), s)"
    by (simp add: execute_call_unknown)
qed

text \<open>
  The instance of C1, with the budget 5 that the chat route passes: an engine that asks
  for \<open>add_task\<close> at every step; an engine whose first request goes through and whose
  second has arguments that are no JSON text, so that the run ends with the error of the
  decoder after two reasoning calls and one task added; and the call of a tool that is not
  registered.
\<close>

theorem loop_budget_witness:
  "always_requests sample_loads (registered_tools sample_UUID sample_untyped) alice
     insistent_engine \<and> (0::int) \<le> 5 \<and>
   (\<exists>trail e' session'.
      AgentRunner_run sample_loads sample_str (counting insistent_engine)
        (registered_tools sample_UUID sample_untyped) ''You are a helpful assistant.''
        (0, ()) sample_session alice
        [PDict [(''role'', PStr ''user''), (''content'', PStr ''hi'')]] 5 =
        (Inr (PDict [(''assistant_message'', PStr apology),
                     (''tool_calls'', PList trail),
                     (''iterations'', PInt 5),
                     (''error'', PStr ''max_iterations_reached'')]),
         (5, e'), session') \<and>
      5 \<le> length trail) \<and>
   (\<exists>s1 fm1 tcm1.
      loop_state_after sample_loads sample_str late_failure_engine
        (registered_tools sample_UUID sample_untyped) alice 5 1
        (0, sample_session,
         [PDict [(''role'', PStr ''system''), (''content'', PStr ''You are a helpful assistant.'')]]
           @ [PDict [(''role'', PStr ''user''), (''content'', PStr ''hi'')]],
         [], 0) = Some (1, s1, fm1, tcm1, 1) \<and>
      length (tasks s1) = 4 \<and> (1::int) < 5 \<and>
      late_failure_engine 1 fm1 =
        (Inr \<lparr>am_content = None, am_tool_calls = Some ([] @ malformed_call # [])\<rparr>, 2) \<and>
      sample_loads (tc_arguments malformed_call) =
        Inl (ValueError ''Expecting value: line 1 column 1 (char 0)'') \<and>
      AgentRunner_run sample_loads sample_str late_failure_engine
        (registered_tools sample_UUID sample_untyped) ''You are a helpful assistant.''
        0 sample_session alice
        [PDict [(''role'', PStr ''user''), (''content'', PStr ''hi'')]] 5 =
        (Inl (ValueError ''Expecting value: line 1 column 1 (char 0)''), 2, s1)) \<and>
   sample_loads (tc_arguments unknown_call) = Inr (PDict []) \<and>
   tc_name unknown_call \<notin> set tool_names \<and>
   execute_call sample_loads sample_str (registered_tools sample_UUID sample_untyped) alice
     unknown_call sample_session [] [] =
     (Inl (ValueError ''Unknown tool: no_such_tool''), sample_session)"
proof -
  let ?tools = "registered_tools sample_UUID sample_untyped"
  let ?sp = "''You are a helpful assistant.''"
  let ?msgs = "[PDict [(''role'', PStr ''user''), (''content'', PStr ''hi'')]]"
  let ?err = "ValueError ''Expecting value: line 1 column 1 (char 0)''"
  have exact: "\<exists>trail e' session'.
      AgentRunner_run sample_loads sample_str (counting insistent_engine) ?tools ?sp
        (0, ()) sample_session alice ?msgs 5 =
        (Inr (PDict [(''assistant_message'', PStr apology),
                     (''tool_calls'', PList trail),
                     (''iterations'', PInt 5),
                     (''error'', PStr ''max_iterations_reached'')]),
         (5, e'), session') \<and>
      5 \<le> length trail"
    using insistent_always_requests
      loop_budget [of sample_loads sample_str insistent_engine ?tools ?sp "()" sample_session
        alice ?msgs 5]
    by simp
  from late_failure_first_step obtain s1 fm1 tcm1 where
    reach: "loop_state_after sample_loads sample_str late_failure_engine ?tools alice 5 1
       (0, sample_session,
        [PDict [(''role'', PStr ''system''), (''content'', PStr ?sp)]] @ ?msgs, [], 0) =
       Some (1, s1, fm1, tcm1, 1)"
    and four: "length (tasks s1) = 4" by blast
  let ?m = "\<lparr>am_content = None, am_tool_calls = Some ([] @ malformed_call # [])\<rparr>"
  have cr: "late_failure_engine 1 fm1 = (Inr ?m, 2)"
    by (simp add: late_failure_engine_def)
  have calls: "am_tool_calls ?m = Some ([] @ malformed_call # [])" by simp
  have before: "execute_calls sample_loads sample_str ?tools alice [] s1
      (fm1 @ [assistant_entry ?m ([] @ malformed_call # [])]) tcm1 =
      (Inr (fm1 @ [assistant_entry ?m ([] @ malformed_call # [])], tcm1), s1)" by simp
  have dec: "sample_loads (tc_arguments malformed_call) = Inl ?err"
    by (simp add: sample_loads_def malformed_call_def)
  have raise: "execute_call sample_loads sample_str ?tools alice malformed_call s1
      (fm1 @ [assistant_entry ?m ([] @ malformed_call # [])]) tcm1 = (Inl ?err, s1)"
    by (rule loop_budget [where loads = sample_loads and tc = malformed_call,
          THEN conjunct2, THEN conjunct2, THEN conjunct2, THEN conjunct1, THEN mp, OF dec])
  have "(1::int) < 5" by simp
  with reach cr calls before raise
  have hyp: "loop_state_after sample_loads sample_str late_failure_engine ?tools alice 5 1
        (0, sample_session,
         [PDict [(''role'', PStr ''system''), (''content'', PStr ?sp)]] @ ?msgs, [], 0) =
        Some (1, s1, fm1, tcm1, 1) \<and>
      (1::int) < 5 \<and> late_failure_engine 1 fm1 = (Inr ?m, 2) \<and>
      am_tool_calls ?m = Some ([] @ malformed_call # []) \<and>
      execute_calls sample_loads sample_str ?tools alice [] s1
        (fm1 @ [assistant_entry ?m ([] @ malformed_call # [])]) tcm1 =
        (Inr (fm1 @ [assistant_entry ?m ([] @ malformed_call # [])], tcm1), s1) \<and>
      execute_call sample_loads sample_str ?tools alice malformed_call s1
        (fm1 @ [assistant_entry ?m ([] @ malformed_call # [])]) tcm1 = (Inl ?err, s1)"
    by blast
  have run: "AgentRunner_run sample_loads sample_str late_failure_engine ?tools ?sp
        0 sample_session alice ?msgs 5 = (Inl ?err, 2, s1)"
    by (rule loop_budget [where create = late_failure_engine and m = ?m and pre = "[]"
          and c = malformed_call and post = "[]",
          THEN conjunct2, THEN conjunct2, THEN conjunct1, THEN mp, OF hyp])
  have un1: "sample_loads (tc_arguments unknown_call) = Inr (PDict [])"
    by (simp add: sample_loads_def unknown_call_def)
  have un2: "tc_name unknown_call \<notin> set tool_names"
    by (simp add: unknown_call_def tool_names_def)
  have "sample_loads (tc_arguments unknown_call) = Inr (PDict []) \<and>
      ''tool_name'' \<notin> fst ` set ([] :: (string \<times> pyval) list) \<and>
      ''session'' \<notin> fst ` set ([] :: (string \<times> pyval) list) \<and>
      tc_name unknown_call \<notin> set tool_names"
    using un1 un2 by simp
  then have "execute_call sample_loads sample_str ?tools alice unknown_call sample_session
      [] [] = (Inl (ValueError (''Unknown tool: '' @ tc_name unknown_call)), sample_session)"
    by (rule loop_budget [where loads = sample_loads and tc = unknown_call,
          THEN conjunct2, THEN conjunct2, THEN conjunct2, THEN conjunct2, THEN mp])
  then have unknown: "execute_call sample_loads sample_str ?tools alice unknown_call
      sample_session [] [] = (Inl (ValueError ''Unknown tool: no_such_tool''), sample_session)"
    by (simp add: unknown_call_def)
  have mid: "\<exists>s1 fm1 tcm1.
      loop_state_after sample_loads sample_str late_failure_engine ?tools alice 5 1
        (0, sample_session,
         [PDict [(''role'', PStr ''system''), (''content'', PStr ?sp)]] @ ?msgs, [], 0) =
        Some (1, s1, fm1, tcm1, 1) \<and>
      length (tasks s1) = 4 \<and> (1::int) < 5 \<and>
      late_failure_engine 1 fm1 = (Inr ?m, 2) \<and>
      sample_loads (tc_arguments malformed_call) = Inl ?err \<and>
      AgentRunner_run sample_loads sample_str late_failure_engine ?tools ?sp
        0 sample_session alice ?msgs 5 = (Inl ?err, 2, s1)"
    using reach four cr dec run
    by - (rule exI [of _ s1], rule exI [of _ fm1], rule exI [of _ tcm1], simp)
  from insistent_always_requests exact mid un1 un2 unknown
  show ?thesis by simp
qed

text \<open>
  C1 as stated fails when a requested call raises: the engine below asks for a tool call
  at every step, but the tool is not registered, \<open>execute_mcp_tool\<close> raises \<open>ValueError\<close>,
  and the run ends with that exception after one reasoning call, not with the apology
  after five.
\<close>

theorem unknown_tool_raises:
  "AgentRunner_run sample_loads sample_str (counting unknown_tool_engine)
       (registered_tools sample_UUID sample_untyped) ''You are a helpful assistant.''
       (0, ()) sample_session alice
       [PDict [(''role'', PStr ''user''), (''content'', PStr ''hi'')]] 5 =
     (Inl (ValueError ''Unknown tool: no_such_tool''), (1, ()), sample_session)"
  by (simp add: AgentRunner_run_def run_loop.simps counting_def sample_loop_defs
      execute_call_def call_execute_mcp_tool_def execute_mcp_tool_def tool_names_def)

section \<open>The chat turn\<close>



















































end
